theory Spec2Isabelle
  imports Complex_Main "HOL-Library.Char_ord"
begin

section \<open>Enhanced IP geolocation: a shallow embedding of enhanced-ip-geolocation.js\<close>

text \<open>
  The class \<^verbatim>\<open>EnhancedIPGeolocation\<close> validates an IP literal with two regular
  expressions, looks the key up in an in-memory cache, fans out to provider adapters,
  merges what they return and stores the envelope. The embedding follows the methods of
  the class one by one and keeps their names.

  JavaScript numbers are IEEE doubles; they are modelled as \<^typ>\<open>real\<close>, times (results
  of \<^verbatim>\<open>Date.now()\<close>) as \<^typ>\<open>int\<close> milliseconds, strings as \<^typ>\<open>string\<close>.
\<close>

subsection \<open>Regular expressions\<close>

text \<open>
  The two patterns of \<^verbatim>\<open>isValidIP\<close> use literals, character classes, concatenation,
  alternation, \<^verbatim>\<open>?\<close> and bounded repetition only. Both are anchored with
  \<^verbatim>\<open>^\<close> and \<^verbatim>\<open>$\<close> and carry no flag, so \<^verbatim>\<open>test\<close> succeeds exactly when
  some way of matching consumes the whole input. \<open>run r s\<close> lists, in the order a
  backtracking matcher tries them, the rests of \<open>s\<close> left after \<open>r\<close> has matched a
  prefix.
\<close>

datatype regex =
    Eps
  | Lit char
  | Class "(char \<times> char) list"
  | Seq regex regex
  | Alt regex regex
  | Opt regex

fun in_class :: "(char \<times> char) list \<Rightarrow> char \<Rightarrow> bool" where
  "in_class [] c = False"
| "in_class ((lo, hi) # rs) c = ((lo \<le> c \<and> c \<le> hi) \<or> in_class rs c)"

fun run :: "regex \<Rightarrow> string \<Rightarrow> string list" where
  "run Eps s = [s]"
| "run (Lit c) s = (case s of [] \<Rightarrow> [] | d # t \<Rightarrow> if d = c then [t] else [])"
| "run (Class rs) s = (case s of [] \<Rightarrow> [] | d # t \<Rightarrow> if in_class rs d then [t] else [])"
| "run (Seq a b) s = concat (map (run b) (run a s))"
| "run (Alt a b) s = run a s @ run b s"
| "run (Opt a) s = run a s @ [s]"

definition test :: "regex \<Rightarrow> string \<Rightarrow> bool" where
  "test r s = ([] \<in> set (run r s))"

text \<open>\<open>times n r\<close> is \<^verbatim>\<open>r{n}\<close> and \<open>between m n r\<close> is the greedy \<^verbatim>\<open>r{m,n}\<close>.\<close>

fun times_re :: "nat \<Rightarrow> regex \<Rightarrow> regex" where
  "times_re 0 r = Eps"
| "times_re (Suc n) r = Seq r (times_re n r)"

fun upto_re :: "nat \<Rightarrow> regex \<Rightarrow> regex" where
  "upto_re 0 r = Eps"
| "upto_re (Suc n) r = Opt (Seq r (upto_re n r))"

definition between :: "nat \<Rightarrow> nat \<Rightarrow> regex \<Rightarrow> regex" where
  "between m n r = Seq (times_re m r) (upto_re (n - m) r)"

fun seqs :: "regex list \<Rightarrow> regex" where
  "seqs [] = Eps"
| "seqs [r] = r"
| "seqs (r # rs) = Seq r (seqs rs)"

subsection \<open>isValidIP\<close>

definition digit_re :: regex where
  "digit_re = Class [(CHR ''0'', CHR ''9'')]"

text \<open>\<^verbatim>\<open>(?:25[0-5]|2[0-4][0-9]|[01]?[0-9][0-9]?)\<close>\<close>

definition octet_re :: regex where
  "octet_re =
     Alt (seqs [Lit (CHR ''2''), Lit (CHR ''5''), Class [(CHR ''0'', CHR ''5'')]])
    (Alt (seqs [Lit (CHR ''2''), Class [(CHR ''0'', CHR ''4'')], digit_re])
         (seqs [Opt (Class [(CHR ''0'', CHR ''1'')]), digit_re, Opt digit_re]))"

text \<open>\<^verbatim>\<open>/^(?:(?:25[0-5]|2[0-4][0-9]|[01]?[0-9][0-9]?)\.){3}(?:25[0-5]|2[0-4][0-9]|[01]?[0-9][0-9]?)$/\<close>\<close>

definition ipv4Regex :: regex where
  "ipv4Regex = Seq (times_re 3 (Seq octet_re (Lit (CHR ''.'')))) octet_re"

definition hex_re :: regex where
  "hex_re = Class [(CHR ''0'', CHR ''9''), (CHR ''a'', CHR ''f''), (CHR ''A'', CHR ''F'')]"

text \<open>\<^verbatim>\<open>/^(?:[0-9a-fA-F]{1,4}:){7}[0-9a-fA-F]{1,4}$/\<close>\<close>

definition ipv6Regex :: regex where
  "ipv6Regex = Seq (times_re 7 (Seq (between 1 4 hex_re) (Lit (CHR '':'')))) (between 1 4 hex_re)"

definition isValidIP :: "string \<Rightarrow> bool" where
  "isValidIP ip = (test ipv4Regex ip \<or> test ipv6Regex ip)"

text \<open>Decimal rendering of a natural number, as a template literal prints an index.\<close>

fun dec :: "nat \<Rightarrow> string" where
  "dec n = (if n < 10 then [''0123456789'' ! n] else dec (n div 10) @ [''0123456789'' ! (n mod 10)])"

declare dec.simps [simp del]

subsection \<open>What the two patterns accept\<close>

text \<open>
  \<open>lang r\<close> is the set of strings \<open>r\<close> matches; \<open>uses r c\<close> says that \<open>c\<close> can
  occur in a string matched by \<open>r\<close>. \<open>split_on\<close> cuts a string at every occurrence of
  a separator, as \<^verbatim>\<open>String.prototype.split\<close> does, and \<open>ipv6_full\<close> describes the
  fully expanded form of an IPv6 literal: eight groups of one to four hexadecimal
  digits, separated by single colons.
\<close>

fun lang :: "regex \<Rightarrow> string set" where
  "lang Eps = {[]}"
| "lang (Lit c) = {[c]}"
| "lang (Class rs) = {[d] | d. in_class rs d}"
| "lang (Seq a b) = {u @ v | u v. u \<in> lang a \<and> v \<in> lang b}"
| "lang (Alt a b) = lang a \<union> lang b"
| "lang (Opt a) = insert [] (lang a)"

fun uses :: "regex \<Rightarrow> char \<Rightarrow> bool" where
  "uses Eps c = False"
| "uses (Lit d) c = (c = d)"
| "uses (Class rs) c = in_class rs c"
| "uses (Seq a b) c = (uses a c \<or> uses b c)"
| "uses (Alt a b) c = (uses a c \<or> uses b c)"
| "uses (Opt a) c = uses a c"

definition hexdigit :: "char \<Rightarrow> bool" where
  "hexdigit c = in_class [(CHR ''0'', CHR ''9''), (CHR ''a'', CHR ''f''), (CHR ''A'', CHR ''F'')] c"

definition hexgroup :: "string \<Rightarrow> bool" where
  "hexgroup g = (1 \<le> length g \<and> length g \<le> 4 \<and> list_all hexdigit g)"

fun split_on :: "char \<Rightarrow> string \<Rightarrow> string list" where
  "split_on c [] = [[]]"
| "split_on c (d # s) =
     (if d = c then [] # split_on c s
      else case split_on c s of [] \<Rightarrow> [[d]] | g # gs \<Rightarrow> (d # g) # gs)"

definition ipv6_full :: "string \<Rightarrow> bool" where
  "ipv6_full s = (length (split_on (CHR '':'') s) = 8 \<and> list_all hexgroup (split_on (CHR '':'') s))"

subsection \<open>Objects\<close>

text \<open>
  An object with string keys is an association list without duplicate keys, in the order
  the properties were created. Assigning to an existing key keeps its place.
  \<^verbatim>\<open>Object.keys\<close> and \<^verbatim>\<open>Object.values\<close> list the array-index keys first, in
  ascending numeric order, then the other keys in creation order. An array index is a
  decimal numeral without leading zero whose value is below \<open>2\<^sup>3\<^sup>2 - 1\<close>.
\<close>

type_synonym 'v obj = "(string \<times> 'v) list"

definition obj_get :: "'v obj \<Rightarrow> string \<Rightarrow> 'v option" where
  "obj_get obj k = map_of obj k"

fun obj_set :: "'v obj \<Rightarrow> string \<Rightarrow> 'v \<Rightarrow> 'v obj" where
  "obj_set [] k v = [(k, v)]"
| "obj_set ((k', v') # kvs) k v =
     (if k' = k then (k, v) # kvs else (k', v') # obj_set kvs k v)"

definition digit_val :: "char \<Rightarrow> int" where
  "digit_val c = of_char c - 48"

definition str_to_int :: "string \<Rightarrow> int" where
  "str_to_int s = foldl (\<lambda>n c. 10 * n + digit_val c) 0 s"

definition is_array_index :: "string \<Rightarrow> bool" where
  "is_array_index k =
     (k \<noteq> [] \<and> list_all (in_class [(CHR ''0'', CHR ''9'')]) k \<and>
      (k = ''0'' \<or> hd k \<noteq> CHR ''0'') \<and> str_to_int k < 4294967295)"

definition object_entries :: "'v obj \<Rightarrow> (string \<times> 'v) list" where
  "object_entries obj =
     sort_key (\<lambda>kv. str_to_int (fst kv)) (filter (\<lambda>kv. is_array_index (fst kv)) obj) @
     filter (\<lambda>kv. \<not> is_array_index (fst kv)) obj"

definition object_keys :: "'v obj \<Rightarrow> string list" where
  "object_keys obj = map fst (object_entries obj)"

definition object_values :: "'v obj \<Rightarrow> 'v list" where
  "object_values obj = map snd (object_entries obj)"

subsection \<open>Provider records\<close>

text \<open>
  The normalised record an adapter returns in \<^verbatim>\<open>data\<close>, with the fields the
  aggregation reads. The categorical fields hold strings and the coordinates finite
  numbers. \<open>None\<close> is a field that is \<^verbatim>\<open>undefined\<close>, \<^verbatim>\<open>null\<close> or, for a coordinate,
  \<^verbatim>\<open>NaN\<close>. An absent list is the empty list.
\<close>

datatype service = Listed nat string | PortScan nat

record provider_data =
  country :: "string option"
  region :: "string option"
  city :: "string option"
  latitude :: "real option"
  longitude :: "real option"
  timezone :: "string option"
  isp :: "string option"
  org :: "string option"
  asn :: "string option"
  isProxy :: bool
  isHosting :: bool
  vulnerabilities :: "string list"
  services :: "service list"
  ports :: "nat list"

text \<open>Truthiness, as \<^verbatim>\<open>if (provider.country)\<close> and \<^verbatim>\<open>if (provider.latitude)\<close> test it.\<close>

fun truthy_string :: "string option \<Rightarrow> bool" where
  "truthy_string None = False"
| "truthy_string (Some s) = (s \<noteq> [])"

fun truthy_number :: "real option \<Rightarrow> bool" where
  "truthy_number None = False"
| "truthy_number (Some x) = (x \<noteq> 0)"

definition push_strings :: "(provider_data \<Rightarrow> string option) \<Rightarrow> provider_data list \<Rightarrow> string list" where
  "push_strings field ps = List.map_filter (\<lambda>p. if truthy_string (field p) then field p else None) ps"

definition push_numbers :: "(provider_data \<Rightarrow> real option) \<Rightarrow> provider_data list \<Rightarrow> real list" where
  "push_numbers field ps = List.map_filter (\<lambda>p. if truthy_number (field p) then field p else None) ps"

subsection \<open>getMostCommon and getAverage\<close>

text \<open>
  \<^verbatim>\<open>counts[item] = (counts[item] || 0) + 1\<close> on an object literal. A stored count is at
  least one, so \<^verbatim>\<open>|| 0\<close> replaces a missing count only. The items are taken not to
  name a member of \<^verbatim>\<open>Object.prototype\<close> (\<open>inherited_key\<close>). For such an item the
  read \<^verbatim>\<open>counts[item]\<close> finds the inherited member: the count becomes a string
  built from the engine's rendering of a native function, which no number exceeds, and
  \<^verbatim>\<open>__proto__\<close> is never stored, so that an array of \<^verbatim>\<open>__proto__\<close> alone makes
  \<^verbatim>\<open>reduce\<close> throw. The embedding counts every item as an ordinary key: on such
  items it is not the code, here and in every function that aggregates.
\<close>

definition inherited_key :: "string \<Rightarrow> bool" where
  "inherited_key k = (k \<in> set [''constructor'', ''__proto__'', ''hasOwnProperty'', ''isPrototypeOf'',
     ''propertyIsEnumerable'', ''toLocaleString'', ''toString'', ''valueOf'', ''__defineGetter__'',
     ''__defineSetter__'', ''__lookupGetter__'', ''__lookupSetter__''])"

definition count_of :: "nat obj \<Rightarrow> string \<Rightarrow> nat" where
  "count_of counts k = (case obj_get counts k of None \<Rightarrow> 0 | Some n \<Rightarrow> n)"

definition count_item :: "nat obj \<Rightarrow> string \<Rightarrow> nat obj" where
  "count_item counts item = obj_set counts item (count_of counts item + 1)"

text \<open>
  \<^verbatim>\<open>keys.reduce((a, b) => counts[a] > counts[b] ? a : b)\<close> starts from the first key.
  An empty list of keys, on which \<^verbatim>\<open>reduce\<close> would throw, does not occur: the array
  is not empty.
\<close>

definition getMostCommon :: "string list \<Rightarrow> string option" where
  "getMostCommon array =
     (if array = [] then None
      else let counts = foldl count_item [] array in
        case object_keys counts of
          [] \<Rightarrow> None
        | k # ks \<Rightarrow> Some (foldl (\<lambda>a b. if count_of counts a > count_of counts b then a else b) k ks))"

text \<open>
  How the result of \<^verbatim>\<open>getMostCommon\<close> is described: \<open>first_seen\<close> lists the distinct
  items in the order of their first occurrence, \<open>key_order\<close> puts them in the order
  of \<^verbatim>\<open>Object.keys\<close>, and \<open>highest_count\<close> is the largest number of occurrences.
\<close>

definition first_seen :: "string list \<Rightarrow> string list" where
  "first_seen array = rev (remdups (rev array))"

definition key_order :: "string list \<Rightarrow> string list" where
  "key_order array =
     sort_key str_to_int (filter is_array_index (first_seen array)) @
     filter (\<lambda>k. \<not> is_array_index k) (first_seen array)"

definition highest_count :: "string list \<Rightarrow> nat" where
  "highest_count array = Max (count_list array ` set array)"

definition getAverage :: "real list \<Rightarrow> real option" where
  "getAverage array =
     (if array = [] then None
      else let sum = foldl (\<lambda>a b. a + b) 0 array in Some (sum / real (length array)))"

subsection \<open>aggregateProviderData\<close>

text \<open>
  \<^verbatim>\<open>aggregated.organization\<close> and \<^verbatim>\<open>aggregated.security\<close> stay empty objects and
  are left out.
\<close>

record agg_location =
  loc_country :: "string option"
  loc_region :: "string option"
  loc_city :: "string option"
  loc_latitude :: "real option"
  loc_longitude :: "real option"
  loc_timezone :: "string option"

record agg_network =
  net_isp :: "string option"
  net_org :: "string option"
  net_asn :: "string option"

record aggregated =
  location :: agg_location
  network :: agg_network

definition aggregateProviderData :: "provider_data obj \<Rightarrow> aggregated" where
  "aggregateProviderData providers =
     (let ps = object_values providers in
      \<lparr>location = \<lparr>
         loc_country = getMostCommon (push_strings country ps),
         loc_region = getMostCommon (push_strings region ps),
         loc_city = getMostCommon (push_strings city ps),
         loc_latitude = getAverage (push_numbers latitude ps),
         loc_longitude = getAverage (push_numbers longitude ps),
         loc_timezone = getMostCommon (push_strings timezone ps)\<rparr>,
       network = \<lparr>
         net_isp = getMostCommon (push_strings isp ps),
         net_org = getMostCommon (push_strings org ps),
         net_asn = getMostCommon (push_strings asn ps)\<rparr>\<rparr>)"

subsection \<open>calculateConfidenceScores\<close>

text \<open>
  The result is an object; \<open>None\<close> is a property the object does not have. With no
  provider the method returns the empty object.
\<close>

record confidence =
  conf_overall :: "real option"
  conf_location :: "real option"
  conf_network :: "real option"
  conf_security :: "real option"

definition empty_object :: confidence where
  "empty_object = \<lparr>conf_overall = None, conf_location = None, conf_network = None, conf_security = None\<rparr>"

definition calculateConfidenceScores :: "provider_data obj \<Rightarrow> confidence" where
  "calculateConfidenceScores providers =
     (let providerCount = length (object_keys providers) in
      if providerCount = 0 then empty_object
      else let overall = min (real providerCount * 0.25) 1.0 in
        \<lparr>conf_overall = Some overall, conf_location = Some overall,
         conf_network = Some overall, conf_security = Some (overall * 0.8)\<rparr>)"

subsection \<open>analyzeThreatData and extractServiceInfo\<close>

text \<open>
  The three kinds of threat entry carry fixed texts; the entry for vulnerabilities also
  carries the list it was built from.
\<close>

datatype threat = ProxyThreat | HostingThreat | VulnerabilitiesThreat "string list"

definition analyzeThreatData :: "provider_data obj \<Rightarrow> threat list" where
  "analyzeThreatData providers =
     concat (map (\<lambda>provider.
        (if isProxy provider then [ProxyThreat] else []) @
        (if isHosting provider then [HostingThreat] else []) @
        (if length (vulnerabilities provider) > 0
         then [VulnerabilitiesThreat (vulnerabilities provider)] else []))
      (object_values providers))"

definition extractServiceInfo :: "provider_data obj \<Rightarrow> service list" where
  "extractServiceInfo providers =
     concat (map (\<lambda>provider. services provider @ map PortScan (ports provider))
       (object_values providers))"

subsection \<open>The envelope, the cache and the request history\<close>

record envelope =
  env_ip :: string
  env_timestamp :: int
  env_providers :: "provider_data obj"
  env_aggregated :: aggregated
  env_confidence :: confidence
  env_threats :: "threat list"
  env_services :: "service list"
  env_errors :: "(string \<times> string) list"

record cache_entry =
  entry_timestamp :: int
  entry_data :: envelope

record history_entry =
  hist_ip :: string
  hist_timestamp :: int
  hist_providers :: "string list"
  hist_success :: bool

record geo_state =
  cache :: "string \<rightharpoonup> cache_entry"
  requestHistory :: "history_entry list"

definition cacheExpiry :: int where
  "cacheExpiry = 24 * 60 * 60 * 1000"

definition maxHistorySize :: nat where
  "maxHistorySize = 100"

definition constructor :: geo_state where
  "constructor = \<lparr>cache = Map.empty, requestHistory = []\<rparr>"

definition getFromCache :: "geo_state \<Rightarrow> int \<Rightarrow> string \<Rightarrow> envelope option" where
  "getFromCache s now ip =
     (case cache s ip of
        None \<Rightarrow> None
      | Some cached \<Rightarrow>
          if now - entry_timestamp cached < cacheExpiry then Some (entry_data cached) else None)"

definition cacheResults :: "geo_state \<Rightarrow> int \<Rightarrow> string \<Rightarrow> envelope \<Rightarrow> geo_state" where
  "cacheResults s now ip data =
     s\<lparr>cache := (cache s)(ip \<mapsto> \<lparr>entry_timestamp = now, entry_data = data\<rparr>)\<rparr>"

definition addToHistory :: "geo_state \<Rightarrow> int \<Rightarrow> string \<Rightarrow> envelope \<Rightarrow> geo_state" where
  "addToHistory s now ip results =
     (let history = \<lparr>hist_ip = ip, hist_timestamp = now,
                       hist_providers = object_keys (env_providers results),
                       hist_success = True\<rparr> # requestHistory s
      in s\<lparr>requestHistory :=
            (if length history > maxHistorySize then take maxHistorySize history else history)\<rparr>)"

subsection \<open>Provider adapters\<close>

text \<open>
  The adapters the class defines. Four of them fetch from the network: how their
  promises settle is an input of the model (\<open>outcome\<close>: \<open>Inl\<close> the message of the
  error the promise is rejected with, \<open>Inr\<close> the normalised record).
  \<^verbatim>\<open>fetchThreatIntelligence\<close> returns a fixed placeholder. The class has no method
  \<^verbatim>\<open>fetchFromMaxMind\<close>, although \<^verbatim>\<open>getComprehensiveIPInfo\<close> calls one.
\<close>

datatype adapter = IPAPI | IPInfo | IPGeolocation | Shodan | ThreatIntel

datatype settled = Fulfilled string provider_data | Rejected string

datatype js_error = Error string | TypeError string

fun message :: "js_error \<Rightarrow> string" where
  "message (Error m) = m"
| "message (TypeError m) = m"

record world =
  now_lookup :: int
  now_start :: int
  now_store :: int
  now_history :: int
  outcome :: "adapter \<Rightarrow> string + provider_data"

text \<open>
  The four readings of the clock are those of \<^verbatim>\<open>getFromCache\<close>, of
  \<^verbatim>\<open>new Date()\<close> for the envelope, of \<^verbatim>\<open>cacheResults\<close> and of \<^verbatim>\<open>addToHistory\<close>.
\<close>

definition settle :: "string \<Rightarrow> string + provider_data \<Rightarrow> settled" where
  "settle provider r = (case r of Inl m \<Rightarrow> Rejected m | Inr d \<Rightarrow> Fulfilled provider d)"

definition fetchFromIPAPI :: "world \<Rightarrow> settled" where
  "fetchFromIPAPI w = settle ''ipapi'' (outcome w IPAPI)"

definition fetchFromIPInfo :: "world \<Rightarrow> settled" where
  "fetchFromIPInfo w = settle ''ipinfo'' (outcome w IPInfo)"

definition fetchFromIPGeolocation :: "world \<Rightarrow> settled" where
  "fetchFromIPGeolocation w = settle ''ipgeolocation'' (outcome w IPGeolocation)"

definition fetchFromShodan :: "world \<Rightarrow> settled" where
  "fetchFromShodan w = settle ''shodan'' (outcome w Shodan)"

definition placeholder :: provider_data where
  "placeholder = \<lparr>country = None, region = None, city = None, latitude = None, longitude = None,
     timezone = None, isp = None, org = None, asn = None, isProxy = False, isHosting = False,
     vulnerabilities = [], services = [], ports = []\<rparr>"

definition fetchThreatIntelligence :: "world \<Rightarrow> settled" where
  "fetchThreatIntelligence w = Fulfilled ''threat_intel'' placeholder"

fun invoke :: "world \<Rightarrow> adapter \<Rightarrow> settled" where
  "invoke w IPAPI = fetchFromIPAPI w"
| "invoke w IPInfo = fetchFromIPInfo w"
| "invoke w IPGeolocation = fetchFromIPGeolocation w"
| "invoke w Shodan = fetchFromShodan w"
| "invoke w ThreatIntel = fetchThreatIntelligence w"

subsection \<open>getComprehensiveIPInfo\<close>

text \<open>
  \<open>None\<close> for \<open>includeBasic\<close> is an option that is not given: the test is
  \<^verbatim>\<open>options.includeBasic !== false\<close>. The other options are tested for truthiness.
\<close>

record options =
  forceRefresh :: bool
  includeBasic :: "bool option"
  includeDetailed :: bool
  includeThreatIntel :: bool

text \<open>
  Building \<^verbatim>\<open>providerPromises\<close>: the adapters started, in order, and the error
  thrown on the way, if any. With \<^verbatim>\<open>includeDetailed\<close> the call of the missing method
  throws a \<^verbatim>\<open>TypeError\<close> after \<^verbatim>\<open>fetchFromIPGeolocation\<close> has been started (the text
  of its message is the engine's).
\<close>

definition startProviders :: "options \<Rightarrow> adapter list \<times> js_error option" where
  "startProviders opts =
     (let basic = (if includeBasic opts \<noteq> Some False then [IPAPI, IPInfo] else []) in
      if includeDetailed opts
      then (basic @ [IPGeolocation], Some (TypeError ''this.fetchFromMaxMind is not a function''))
      else (basic @ (if includeThreatIntel opts then [Shodan, ThreatIntel] else []), None))"

text \<open>The \<^verbatim>\<open>forEach\<close> over the settled results, with its index.\<close>

fun processResults ::
  "nat \<Rightarrow> settled list \<Rightarrow> provider_data obj \<times> (string \<times> string) list
     \<Rightarrow> provider_data obj \<times> (string \<times> string) list" where
  "processResults index [] acc = acc"
| "processResults index (Fulfilled providerName data # rest) (providers, errors) =
     processResults (Suc index) rest (obj_set providers providerName data, errors)"
| "processResults index (Rejected reason # rest) (providers, errors) =
     processResults (Suc index) rest (providers, errors @ [(''provider_'' @ dec index, reason)])"

text \<open>
  The part of the \<^verbatim>\<open>try\<close> block after the cache has been checked: the result or
  the error thrown, the state left behind and the adapters invoked, in order. The
  aggregation is that of \<open>aggregateProviderData\<close>, for records whose categorical
  values do not name a member of \<^verbatim>\<open>Object.prototype\<close>.
\<close>

definition fetchAndAggregate ::
  "geo_state \<Rightarrow> world \<Rightarrow> string \<Rightarrow> options \<Rightarrow> (js_error + envelope) \<times> geo_state \<times> adapter list" where
  "fetchAndAggregate s w ip opts =
     (case startProviders opts of
        (started, Some err) \<Rightarrow> (Inl err, s, started)
      | (started, None) \<Rightarrow>
          let providerResults = map (invoke w) started;
              (providers, errors) = processResults 0 providerResults ([], []);
              results = \<lparr>env_ip = ip, env_timestamp = now_start w,
                env_providers = providers,
                env_aggregated = aggregateProviderData providers,
                env_confidence = calculateConfidenceScores providers,
                env_threats = analyzeThreatData providers,
                env_services = extractServiceInfo providers,
                env_errors = errors\<rparr>;
              s1 = cacheResults s (now_store w) ip results;
              s2 = addToHistory s1 (now_history w) ip results
          in (Inr results, s2, started))"

text \<open>
  The body of the \<^verbatim>\<open>try\<close> block: validation, then the cache, whose answer is
  returned unless \<^verbatim>\<open>forceRefresh\<close> is set, then the adapters.
\<close>

definition tryBlock ::
  "geo_state \<Rightarrow> world \<Rightarrow> string \<Rightarrow> options \<Rightarrow> (js_error + envelope) \<times> geo_state \<times> adapter list" where
  "tryBlock s w ip opts =
     (if \<not> isValidIP ip then (Inl (Error ''Invalid IP address format''), s, [])
      else case getFromCache s (now_lookup w) ip of
        Some cached \<Rightarrow>
          if \<not> forceRefresh opts then (Inr cached, s, []) else fetchAndAggregate s w ip opts
      | None \<Rightarrow> fetchAndAggregate s w ip opts)"

text \<open>The \<^verbatim>\<open>catch\<close> clause wraps whatever was thrown.\<close>

definition getComprehensiveIPInfo ::
  "geo_state \<Rightarrow> world \<Rightarrow> string \<Rightarrow> options \<Rightarrow> (js_error + envelope) \<times> geo_state \<times> adapter list" where
  "getComprehensiveIPInfo s w ip opts =
     (case tryBlock s w ip opts of
        (Inl error, s', invoked) \<Rightarrow>
          (Inl (Error (''Failed to get IP information: '' @ message error)), s', invoked)
      | (Inr results, s', invoked) \<Rightarrow> (Inr results, s', invoked))"

text \<open>
  What the \<^verbatim>\<open>try\<close> block builds once the adapters \<open>started\<close> have settled.
\<close>

definition envelope_of :: "world \<Rightarrow> string \<Rightarrow> adapter list \<Rightarrow> envelope" where
  "envelope_of w ip started =
     (let (providers, errors) = processResults 0 (map (invoke w) started) ([], []) in
      \<lparr>env_ip = ip, env_timestamp = now_start w,
       env_providers = providers,
       env_aggregated = aggregateProviderData providers,
       env_confidence = calculateConfidenceScores providers,
       env_threats = analyzeThreatData providers,
       env_services = extractServiceInfo providers,
       env_errors = errors\<rparr>)"

text \<open>
  The settled results split in two: the records of the fulfilled promises, under the
  provider names they carry, and one error entry for each rejected promise, numbered by
  its place among the promises.
\<close>

fun fulfilled :: "settled list \<Rightarrow> (string \<times> provider_data) list" where
  "fulfilled [] = []"
| "fulfilled (Fulfilled providerName data # rest) = (providerName, data) # fulfilled rest"
| "fulfilled (Rejected reason # rest) = fulfilled rest"

fun rejected :: "nat \<Rightarrow> settled list \<Rightarrow> (string \<times> string) list" where
  "rejected index [] = []"
| "rejected index (Fulfilled providerName data # rest) = rejected (Suc index) rest"
| "rejected index (Rejected reason # rest) = (''provider_'' @ dec index, reason) # rejected (Suc index) rest"

fun provider_name :: "adapter \<Rightarrow> string" where
  "provider_name IPAPI = ''ipapi''"
| "provider_name IPInfo = ''ipinfo''"
| "provider_name IPGeolocation = ''ipgeolocation''"
| "provider_name Shodan = ''shodan''"
| "provider_name ThreatIntel = ''threat_intel''"

definition nothing_aggregated :: aggregated where
  "nothing_aggregated =
     \<lparr>location = \<lparr>loc_country = None, loc_region = None, loc_city = None, loc_latitude = None,
                  loc_longitude = None, loc_timezone = None\<rparr>,
      network = \<lparr>net_isp = None, net_org = None, net_asn = None\<rparr>\<rparr>"

subsection \<open>Example inputs\<close>

text \<open>\<open>default_options\<close> is the call without options, \<^verbatim>\<open>options = {}\<close>.\<close>

definition default_options :: options where
  "default_options =
     \<lparr>forceRefresh = False, includeBasic = None, includeDetailed = False, includeThreatIntel = False\<rparr>"

definition all_fail :: world where
  "all_fail = \<lparr>now_lookup = 1000, now_start = 1001, now_store = 1500, now_history = 1501,
     outcome = (\<lambda>a. Inl ''Failed to fetch'')\<rparr>"

definition all_fail_envelope :: envelope where
  "all_fail_envelope =
     \<lparr>env_ip = ''8.8.8.8'', env_timestamp = 1001, env_providers = [],
      env_aggregated = nothing_aggregated, env_confidence = empty_object,
      env_threats = [], env_services = [],
      env_errors = [(''provider_0'', ''Failed to fetch''), (''provider_1'', ''Failed to fetch'')]\<rparr>"

text \<open>The state a new instance is in after the call on \<open>all_fail\<close> has returned.\<close>

definition after_all_fail :: geo_state where
  "after_all_fail =
     \<lparr>cache = [''8.8.8.8'' \<mapsto> \<lparr>entry_timestamp = 1500, entry_data = all_fail_envelope\<rparr>],
      requestHistory = [\<lparr>hist_ip = ''8.8.8.8'', hist_timestamp = 1501, hist_providers = [],
                         hist_success = True\<rparr>]\<rparr>"

text \<open>Two providers report a latitude, one of them the equator.\<close>

definition equator_example :: "provider_data obj" where
  "equator_example =
     [(''ipapi'', placeholder\<lparr>latitude := Some 0\<rparr>), (''ipinfo'', placeholder\<lparr>latitude := Some 10\<rparr>)]"

text \<open>Two providers report different cities.\<close>

definition tie_example :: "provider_data obj" where
  "tie_example =
     [(''ipapi'', placeholder\<lparr>city := Some ''A''\<rparr>), (''ipinfo'', placeholder\<lparr>city := Some ''B''\<rparr>)]"

text \<open>Three providers, two of which agree on the city.\<close>

definition majority_example :: "provider_data obj" where
  "majority_example =
     [(''ipapi'', placeholder\<lparr>city := Some ''Paris''\<rparr>), (''ipinfo'', placeholder\<lparr>city := Some ''Paris''\<rparr>),
      (''shodan'', placeholder\<lparr>city := Some ''Berlin''\<rparr>)]"


section \<open>Properties\<close>

subsection \<open>Matching and the set of matched strings\<close>

lemma run_lang: "t \<in> set (run r s) \<longleftrightarrow> (\<exists>u\<in>lang r. s = u @ t)"
proof (induction r arbitrary: s t)
  case (Seq a b)
  show ?case
  proof
    assume "t \<in> set (run (Seq a b) s)"
    then obtain m where m: "m \<in> set (run a s)" "t \<in> set (run b m)" by auto
    from m(1) Seq.IH(1) obtain u where u: "u \<in> lang a" "s = u @ m" by blast
    from m(2) Seq.IH(2) obtain v where v: "v \<in> lang b" "m = v @ t" by blast
    from u v have "u @ v \<in> lang (Seq a b)" "s = (u @ v) @ t" by auto
    then show "\<exists>u\<in>lang (Seq a b). s = u @ t" by blast
  next
    assume "\<exists>u\<in>lang (Seq a b). s = u @ t"
    then obtain u v where uv: "u \<in> lang a" "v \<in> lang b" "s = (u @ v) @ t" by auto
    then have "v @ t \<in> set (run a s)" using Seq.IH(1) by auto
    moreover have "t \<in> set (run b (v @ t))" using Seq.IH(2) uv(2) by blast
    ultimately show "t \<in> set (run (Seq a b) s)" by auto
  qed
qed (auto split: list.splits)

lemma test_lang: "test r s \<longleftrightarrow> s \<in> lang r"
  by (simp add: test_def run_lang)

lemma lang_uses: "u \<in> lang r \<Longrightarrow> c \<in> set u \<Longrightarrow> uses r c"
proof (induction r arbitrary: u)
  case (Seq a b)
  from Seq.prems(1) obtain v w where "v \<in> lang a" "w \<in> lang b" "u = v @ w" by auto
  with Seq.prems(2) Seq.IH show ?case by auto
qed auto

lemma split_on_nonempty: "split_on c s \<noteq> []"
  by (induction s) (auto split: list.splits)

lemma split_on_step:
  "split_on c (d # s) =
     (if d = c then [] # split_on c s else (d # hd (split_on c s)) # tl (split_on c s))"
  using split_on_nonempty [of c s] by (cases "split_on c s") auto

declare split_on.simps(2) [simp del]
declare split_on_step [simp]

lemma split_on_plain: "c \<notin> set g \<Longrightarrow> split_on c g = [g]"
  by (induction g) auto

lemma split_on_append: "c \<notin> set g \<Longrightarrow> split_on c (g @ c # s) = g # split_on c s"
  by (induction g) auto

lemma split_on_cons:
  "split_on c s = g # gs \<Longrightarrow> gs \<noteq> [] \<Longrightarrow> \<exists>t. s = g @ c # t \<and> split_on c t = gs \<and> c \<notin> set g"
proof (induction s arbitrary: g gs)
  case Nil
  then show ?case by simp
next
  case (Cons d s)
  show ?case
  proof (cases "d = c")
    case True
    with Cons.prems show ?thesis by auto
  next
    case False
    with Cons.prems have g: "g = d # hd (split_on c s)" and gs: "gs = tl (split_on c s)" by auto
    have "split_on c s = hd (split_on c s) # gs"
      using gs split_on_nonempty [of c s] by (cases "split_on c s") auto
    from Cons.IH [OF this Cons.prems(2)] obtain t where
      "s = hd (split_on c s) @ c # t" "split_on c t = gs" "c \<notin> set (hd (split_on c s))" by blast
    with g False show ?thesis by auto
  qed
qed

lemma split_on_single: "split_on c s = [g] \<Longrightarrow> s = g \<and> c \<notin> set g"
proof (induction s arbitrary: g)
  case Nil
  then show ?case by simp
next
  case (Cons d s)
  show ?case
  proof (cases "d = c")
    case True
    with Cons.prems show ?thesis using split_on_nonempty [of c s] by auto
  next
    case False
    with Cons.prems have g: "g = d # hd (split_on c s)" and gs: "tl (split_on c s) = []" by auto
    have "split_on c s = [hd (split_on c s)]"
      using gs split_on_nonempty [of c s] by (cases "split_on c s") auto
    from Cons.IH [OF this] g False show ?thesis by auto
  qed
qed

lemma hexdigit_colon: "hexdigit c \<Longrightarrow> c \<noteq> CHR '':''"
  by (auto simp: hexdigit_def)

lemma hexgroup_colon: "hexgroup g \<Longrightarrow> CHR '':'' \<notin> set g"
  by (auto simp: hexgroup_def list_all_iff dest: hexdigit_colon)


lemma lang_SeqI: "u \<in> lang a \<Longrightarrow> v \<in> lang b \<Longrightarrow> u @ v \<in> lang (Seq a b)"
  unfolding lang.simps(4) by blast

lemma lang_SeqE:
  assumes "s \<in> lang (Seq a b)"
  obtains u v where "s = u @ v" "u \<in> lang a" "v \<in> lang b"
  using assms unfolding lang.simps(4) by blast

lemma lang_Class_iff: "u \<in> lang (Class rs) \<longleftrightarrow> (\<exists>d. u = [d] \<and> in_class rs d)"
  unfolding lang.simps(3) by blast

lemma lang_Lit_iff: "u \<in> lang (Lit c) \<longleftrightarrow> u = [c]"
  unfolding lang.simps(2) by blast

lemma lang_upto_step:
  "g \<in> lang (upto_re (Suc n) (Class rs)) \<longleftrightarrow>
     g = [] \<or> (\<exists>d v. g = d # v \<and> in_class rs d \<and> v \<in> lang (upto_re n (Class rs)))"
proof -
  let ?R = "upto_re n (Class rs)"
  have "g \<in> lang (Seq (Class rs) ?R) \<longleftrightarrow> (\<exists>d v. g = d # v \<and> in_class rs d \<and> v \<in> lang ?R)"
  proof
    assume "g \<in> lang (Seq (Class rs) ?R)"
    then obtain u v where uv: "g = u @ v" "u \<in> lang (Class rs)" "v \<in> lang ?R"
      by (rule lang_SeqE)
    from uv(2) obtain d where "u = [d]" "in_class rs d" unfolding lang_Class_iff by blast
    with uv show "\<exists>d v. g = d # v \<and> in_class rs d \<and> v \<in> lang ?R" by simp
  next
    assume "\<exists>d v. g = d # v \<and> in_class rs d \<and> v \<in> lang ?R"
    then obtain d v where dv: "g = d # v" "in_class rs d" "v \<in> lang ?R" by blast
    from dv(2) have "[d] \<in> lang (Class rs)" unfolding lang_Class_iff by blast
    from lang_SeqI [OF this dv(3)] dv(1) show "g \<in> lang (Seq (Class rs) ?R)" by simp
  qed
  then show ?thesis unfolding upto_re.simps lang.simps(6) by blast
qed

lemma lang_upto_class:
  "g \<in> lang (upto_re n (Class rs)) \<longleftrightarrow> length g \<le> n \<and> list_all (in_class rs) g"
proof (induction n arbitrary: g)
  case 0
  show ?case unfolding upto_re.simps lang.simps(1) by (cases g) simp_all
next
  case (Suc n)
  show ?case
    unfolding lang_upto_step Suc.IH by (cases g) auto
qed

lemma lang_hexgroup: "g \<in> lang (between 1 4 hex_re) \<longleftrightarrow> hexgroup g"
proof -
  have eq: "lang (times_re 1 hex_re) = lang hex_re"
    unfolding One_nat_def times_re.simps lang.simps(4) lang.simps(1) by simp
  have A: "\<And>u. u \<in> lang (times_re 1 hex_re) \<longleftrightarrow> (\<exists>d. u = [d] \<and> hexdigit d)"
    by (simp only: eq) (simp only: hex_re_def lang_Class_iff hexdigit_def)
  have B: "\<And>v. v \<in> lang (upto_re 3 hex_re) \<longleftrightarrow> length v \<le> 3 \<and> list_all hexdigit v"
    by (simp only: hex_re_def lang_upto_class hexdigit_def [abs_def])
  have C: "between 1 4 hex_re = Seq (times_re 1 hex_re) (upto_re 3 hex_re)"
    by (simp add: between_def del: times_re.simps upto_re.simps)
  show ?thesis
  proof
    assume "g \<in> lang (between 1 4 hex_re)"
    then obtain u v where uv: "g = u @ v" "u \<in> lang (times_re 1 hex_re)" "v \<in> lang (upto_re 3 hex_re)"
      unfolding C by (rule lang_SeqE)
    from uv(2) obtain d where "u = [d]" "hexdigit d" unfolding A by blast
    with uv(1) uv(3) show "hexgroup g" unfolding B by (simp add: hexgroup_def)
  next
    assume h: "hexgroup g"
    then obtain d v where g: "g = d # v" by (cases g) (simp_all add: hexgroup_def)
    with h have "hexdigit d" "length v \<le> 3 \<and> list_all hexdigit v" by (simp_all add: hexgroup_def)
    then have "[d] \<in> lang (times_re 1 hex_re)" "v \<in> lang (upto_re 3 hex_re)"
      unfolding A B by blast+
    from lang_SeqI [OF this] show "g \<in> lang (between 1 4 hex_re)"
      unfolding C g by simp
  qed
qed

lemma lang_group_step:
  "s \<in> lang (Seq (Seq (Seq a (Lit c)) r) b) \<longleftrightarrow>
     (\<exists>g t. s = g @ c # t \<and> g \<in> lang a \<and> t \<in> lang (Seq r b))"
proof
  assume "s \<in> lang (Seq (Seq (Seq a (Lit c)) r) b)"
  then obtain x y where xy: "s = x @ y" "x \<in> lang (Seq (Seq a (Lit c)) r)" "y \<in> lang b"
    by (rule lang_SeqE)
  from xy(2) obtain p q where pq: "x = p @ q" "p \<in> lang (Seq a (Lit c))" "q \<in> lang r"
    by (rule lang_SeqE)
  from pq(2) obtain g l where gl: "p = g @ l" "g \<in> lang a" "l \<in> lang (Lit c)"
    by (rule lang_SeqE)
  from gl(3) have l: "l = [c]" unfolding lang_Lit_iff .
  have "s = g @ c # (q @ y)" using xy(1) pq(1) gl(1) l by simp
  moreover have "q @ y \<in> lang (Seq r b)" using pq(3) xy(3) by (rule lang_SeqI)
  ultimately show "\<exists>g t. s = g @ c # t \<and> g \<in> lang a \<and> t \<in> lang (Seq r b)"
    using gl(2) by blast
next
  assume "\<exists>g t. s = g @ c # t \<and> g \<in> lang a \<and> t \<in> lang (Seq r b)"
  then obtain g t where gt: "s = g @ c # t" "g \<in> lang a" "t \<in> lang (Seq r b)" by blast
  from gt(3) obtain q y where qy: "t = q @ y" "q \<in> lang r" "y \<in> lang b" by (rule lang_SeqE)
  have "[c] \<in> lang (Lit c)" unfolding lang_Lit_iff by (rule refl)
  from lang_SeqI [OF gt(2) this] have "g @ [c] \<in> lang (Seq a (Lit c))" .
  from lang_SeqI [OF this qy(2)] have "(g @ [c]) @ q \<in> lang (Seq (Seq a (Lit c)) r)" .
  from lang_SeqI [OF this qy(3)] show "s \<in> lang (Seq (Seq (Seq a (Lit c)) r) b)"
    using gt(1) qy(1) by simp
qed

lemma lang_Seq_Eps: "s \<in> lang (Seq Eps b) \<longleftrightarrow> s \<in> lang b"
  unfolding lang.simps(4) lang.simps(1) by simp

lemma lang_groups:
  "s \<in> lang (Seq (times_re n (Seq (between 1 4 hex_re) (Lit (CHR '':'')))) (between 1 4 hex_re)) \<longleftrightarrow>
     length (split_on (CHR '':'') s) = Suc n \<and> list_all hexgroup (split_on (CHR '':'') s)"
proof (induction n arbitrary: s)
  case 0
  show ?case
  proof
    assume "s \<in> lang (Seq (times_re 0 (Seq (between 1 4 hex_re) (Lit (CHR '':'')))) (between 1 4 hex_re))"
    then have h: "hexgroup s" unfolding times_re.simps lang_Seq_Eps lang_hexgroup .
    then have "split_on (CHR '':'') s = [s]" by (intro split_on_plain hexgroup_colon)
    with h show "length (split_on (CHR '':'') s) = Suc 0 \<and> list_all hexgroup (split_on (CHR '':'') s)"
      by simp
  next
    assume a: "length (split_on (CHR '':'') s) = Suc 0 \<and> list_all hexgroup (split_on (CHR '':'') s)"
    then obtain g where g: "split_on (CHR '':'') s = [g]"
      by (cases "split_on (CHR '':'') s") auto
    with a split_on_single [OF g] have "hexgroup s" by simp
    then show "s \<in> lang (Seq (times_re 0 (Seq (between 1 4 hex_re) (Lit (CHR '':'')))) (between 1 4 hex_re))"
      unfolding times_re.simps lang_Seq_Eps lang_hexgroup .
  qed
next
  case (Suc n)
  let ?G = "between 1 4 hex_re"
  let ?X = "Seq ?G (Lit (CHR '':''))"
  have step: "s \<in> lang (Seq (times_re (Suc n) ?X) ?G) \<longleftrightarrow>
      (\<exists>g t. s = g @ CHR '':'' # t \<and> hexgroup g \<and>
         length (split_on (CHR '':'') t) = Suc n \<and> list_all hexgroup (split_on (CHR '':'') t))"
    unfolding times_re.simps lang_group_step lang_hexgroup Suc.IH by (rule refl)
  show ?case
  proof
    assume "s \<in> lang (Seq (times_re (Suc n) ?X) ?G)"
    then obtain g t where gt: "s = g @ CHR '':'' # t" "hexgroup g"
        "length (split_on (CHR '':'') t) = Suc n" "list_all hexgroup (split_on (CHR '':'') t)"
      unfolding step by blast
    from gt(2) have "split_on (CHR '':'') s = g # split_on (CHR '':'') t"
      unfolding gt(1) by (intro split_on_append hexgroup_colon)
    with gt show "length (split_on (CHR '':'') s) = Suc (Suc n) \<and> list_all hexgroup (split_on (CHR '':'') s)"
      by simp
  next
    assume a: "length (split_on (CHR '':'') s) = Suc (Suc n) \<and> list_all hexgroup (split_on (CHR '':'') s)"
    then obtain g gs where g0: "split_on (CHR '':'') s = g # gs" "length gs = Suc n"
      by (auto simp: length_Suc_conv)
    then have g: "split_on (CHR '':'') s = g # gs" "gs \<noteq> []" by auto
    from split_on_cons [OF this] obtain t where
      t: "s = g @ CHR '':'' # t" "split_on (CHR '':'') t = gs" by blast
    from a g(1) t(2) have "hexgroup g" "length (split_on (CHR '':'') t) = Suc n"
        "list_all hexgroup (split_on (CHR '':'') t)" by simp_all
    with t(1) show "s \<in> lang (Seq (times_re (Suc n) ?X) ?G)" unfolding step by blast
  qed
qed

lemma test_ipv6Regex: "test ipv6Regex s \<longleftrightarrow> ipv6_full s"
proof -
  have "Suc 7 = 8" by simp
  then show ?thesis
    unfolding test_lang ipv6Regex_def lang_groups ipv6_full_def by simp
qed

lemma split_on_double: "[] \<in> set (tl (split_on c (u @ c # c # v)))"
proof (induction u)
  case Nil
  show ?case by simp
next
  case (Cons d u)
  show ?case
  proof (cases "d = c")
    case True
    have "[] \<in> set (split_on c (u @ c # c # v))"
      using Cons.IH split_on_nonempty [of c "u @ c # c # v"]
      by (cases "split_on c (u @ c # c # v)") auto
    with True show ?thesis by simp
  next
    case False
    with Cons.IH show ?thesis by simp
  qed
qed

lemma ipv6_full_double: "\<not> ipv6_full (u @ CHR '':'' # CHR '':'' # v)"
proof
  assume "ipv6_full (u @ CHR '':'' # CHR '':'' # v)"
  then have "list_all hexgroup (split_on (CHR '':'') (u @ CHR '':'' # CHR '':'' # v))"
    by (simp add: ipv6_full_def)
  moreover have "[] \<in> set (split_on (CHR '':'') (u @ CHR '':'' # CHR '':'' # v))"
    using split_on_double [of "CHR '':''" u v] split_on_nonempty [of "CHR '':''" "u @ CHR '':'' # CHR '':'' # v"]
    by (cases "split_on (CHR '':'') (u @ CHR '':'' # CHR '':'' # v)") auto
  ultimately have "hexgroup []" unfolding list_all_iff by blast
  then show False by (simp add: hexgroup_def)
qed

lemma ipv4_no_colon: "test ipv4Regex s \<Longrightarrow> CHR '':'' \<notin> set s"
proof
  assume "test ipv4Regex s" "CHR '':'' \<in> set s"
  then have "uses ipv4Regex (CHR '':'')" unfolding test_lang by (rule lang_uses)
  then show False
    by (simp add: ipv4Regex_def octet_re_def digit_re_def eval_nat_numeral)
qed

lemma octets_accepted: "list_all (\<lambda>n. test octet_re (dec n)) [0..<256]"
  by code_simp

lemma octet_lang: "n < 256 \<Longrightarrow> dec n \<in> lang octet_re"
proof -
  assume "n < 256"
  then have "n \<in> set [0..<256]" by simp
  with octets_accepted have "test octet_re (dec n)" unfolding list_all_iff by blast
  then show ?thesis unfolding test_lang .
qed

lemma ipv4_accepted:
  assumes "a < 256" "b < 256" "c < 256" "d < 256"
  shows "test ipv4Regex (dec a @ ''.'' @ dec b @ ''.'' @ dec c @ ''.'' @ dec d)"
proof -
  let ?X = "Seq octet_re (Lit (CHR ''.''))"
  have dot: "''.'' \<in> lang (Lit (CHR ''.''))" unfolding lang_Lit_iff by (rule refl)
  have xa: "dec a @ ''.'' \<in> lang ?X" by (rule lang_SeqI [OF octet_lang [OF assms(1)] dot])
  have xb: "dec b @ ''.'' \<in> lang ?X" by (rule lang_SeqI [OF octet_lang [OF assms(2)] dot])
  have xc: "dec c @ ''.'' \<in> lang ?X" by (rule lang_SeqI [OF octet_lang [OF assms(3)] dot])
  have e: "[] \<in> lang Eps" unfolding lang.simps(1) by (rule singletonI)
  have t3: "times_re 3 ?X = Seq ?X (Seq ?X (Seq ?X Eps))" by (simp add: eval_nat_numeral)
  have "(dec a @ ''.'') @ (dec b @ ''.'') @ (dec c @ ''.'') @ [] \<in> lang (times_re 3 ?X)"
    unfolding t3 by (rule lang_SeqI [OF xa lang_SeqI [OF xb lang_SeqI [OF xc e]]])
  from lang_SeqI [OF this octet_lang [OF assms(4)]]
  have "((dec a @ ''.'') @ (dec b @ ''.'') @ (dec c @ ''.'') @ []) @ dec d \<in> lang ipv4Regex"
    unfolding ipv4Regex_def .
  then show ?thesis unfolding test_lang by (simp del: dec.simps)
qed

subsection \<open>The ways through getComprehensiveIPInfo\<close>

lemma tryBlock_invalid:
  "\<not> isValidIP ip \<Longrightarrow> tryBlock s w ip opts = (Inl (Error ''Invalid IP address format''), s, [])"
  by (simp add: tryBlock_def)

lemma call_invalid:
  "\<not> isValidIP ip \<Longrightarrow>
   getComprehensiveIPInfo s w ip opts =
     (Inl (Error ''Failed to get IP information: Invalid IP address format''), s, [])"
  by (simp add: getComprehensiveIPInfo_def tryBlock_invalid)

lemma call_hit:
  "isValidIP ip \<Longrightarrow> \<not> forceRefresh opts \<Longrightarrow> getFromCache s (now_lookup w) ip = Some e \<Longrightarrow>
   getComprehensiveIPInfo s w ip opts = (Inr e, s, [])"
  by (simp add: getComprehensiveIPInfo_def tryBlock_def)

lemma call_throw:
  "isValidIP ip \<Longrightarrow> forceRefresh opts \<or> getFromCache s (now_lookup w) ip = None \<Longrightarrow>
   includeDetailed opts \<Longrightarrow>
   getComprehensiveIPInfo s w ip opts =
     (Inl (Error ''Failed to get IP information: this.fetchFromMaxMind is not a function''), s,
      fst (startProviders opts))"
  by (auto simp add: getComprehensiveIPInfo_def tryBlock_def fetchAndAggregate_def startProviders_def
      Let_def split: option.splits)

lemma call_dispatch:
  "isValidIP ip \<Longrightarrow> forceRefresh opts \<or> getFromCache s (now_lookup w) ip = None \<Longrightarrow>
   \<not> includeDetailed opts \<Longrightarrow>
   getComprehensiveIPInfo s w ip opts =
     (Inr (envelope_of w ip (fst (startProviders opts))),
      addToHistory (cacheResults s (now_store w) ip (envelope_of w ip (fst (startProviders opts))))
        (now_history w) ip (envelope_of w ip (fst (startProviders opts))),
      fst (startProviders opts))"
  by (auto simp add: getComprehensiveIPInfo_def tryBlock_def fetchAndAggregate_def startProviders_def
      envelope_of_def Let_def split: prod.splits option.splits)

lemma getFromCache_None:
  "getFromCache s now ip = None \<longleftrightarrow>
     cache s ip = None \<or> (\<exists>e. cache s ip = Some e \<and> now - entry_timestamp e \<ge> cacheExpiry)"
  by (auto simp add: getFromCache_def split: option.splits)

lemma cache_after_dispatch:
  "cache (addToHistory (cacheResults s now ip e) now' ip' e') ip = Some \<lparr>entry_timestamp = now, entry_data = e\<rparr>"
  by (simp add: addToHistory_def cacheResults_def Let_def)

lemma isValidIP_colon: "CHR '':'' \<in> set s \<Longrightarrow> isValidIP s = ipv6_full s"
  using ipv4_no_colon [of s] by (auto simp add: isValidIP_def test_ipv6Regex)

lemma isValidIP_double: "\<not> isValidIP (u @ ''::'' @ v)"
proof -
  have "CHR '':'' \<in> set (u @ ''::'' @ v)" by simp
  from isValidIP_colon [OF this] ipv6_full_double [of u v] show ?thesis by simp
qed

lemma isValidIP_dotted:
  "a < 256 \<Longrightarrow> b < 256 \<Longrightarrow> c < 256 \<Longrightarrow> d < 256 \<Longrightarrow>
   isValidIP (dec a @ ''.'' @ dec b @ ''.'' @ dec c @ ''.'' @ dec d)"
  unfolding isValidIP_def by (intro disjI1 ipv4_accepted)

lemma call_result_cached:
  assumes "getComprehensiveIPInfo s w ip opts = (Inr e, s1, c)"
  shows "isValidIP ip \<and> (\<exists>ce. cache s1 ip = Some ce \<and> entry_data ce = e)"
proof -
  have v: "isValidIP ip"
  proof (rule ccontr)
    assume "\<not> isValidIP ip"
    from call_invalid [OF this, of s w opts] assms show False by simp
  qed
  show ?thesis
  proof (cases "forceRefresh opts \<or> getFromCache s (now_lookup w) ip = None")
    case True
    show ?thesis
    proof (cases "includeDetailed opts")
      case d: True
      from call_throw [OF v True d] assms show ?thesis by simp
    next
      case d: False
      from call_dispatch [OF v True d] assms v show ?thesis
        by (auto simp add: cache_after_dispatch)
    qed
  next
    case False
    then obtain e' where e': "getFromCache s (now_lookup w) ip = Some e'" and f: "\<not> forceRefresh opts"
      by auto
    from call_hit [OF v f e'] assms have "e' = e" "s1 = s" by simp_all
    with e' v show ?thesis
      by (auto simp add: getFromCache_def split: option.splits if_splits)
  qed
qed

subsection \<open>Key validation\<close>

text \<open>
  C8. A key that fails \<^verbatim>\<open>isValidIP\<close> makes \<^verbatim>\<open>getComprehensiveIPInfo\<close> throw the
  error for an invalid IP address format (the \<^verbatim>\<open>catch\<close> clause puts its prefix in
  front of the message). No adapter has been invoked, no envelope is returned and
  nothing is cached.
\<close>

theorem invalid_key_rejected:
  "\<not> isValidIP ip \<Longrightarrow>
   getComprehensiveIPInfo s w ip opts =
     (Inl (Error ''Failed to get IP information: Invalid IP address format''), s, [])"
  by (rule call_invalid)

theorem invalid_key_rejected_witness:
  "\<not> isValidIP ''999.999.1.1'' \<and>
   getComprehensiveIPInfo constructor all_fail ''999.999.1.1'' default_options =
     (Inl (Error ''Failed to get IP information: Invalid IP address format''), constructor, [])"
proof -
  have h: "\<not> isValidIP ''999.999.1.1''" by code_simp
  from invalid_key_rejected [OF h, of constructor all_fail default_options] h show ?thesis by simp
qed

text \<open>
  C10. A string with a colon is accepted exactly when it is a fully expanded IPv6
  literal: eight groups of one to four hexadecimal digits. Every string with \<^verbatim>\<open>::\<close>
  in it is rejected, so \<^verbatim>\<open>getComprehensiveIPInfo\<close> throws on it. A dotted quad of four
  decimal numbers from 0 to 255 is accepted.
\<close>

theorem ip_literal_forms:
  "(CHR '':'' \<in> set s \<longrightarrow> isValidIP s = ipv6_full s) \<and>
   \<not> isValidIP (u @ ''::'' @ v) \<and>
   getComprehensiveIPInfo st w (u @ ''::'' @ v) opts =
     (Inl (Error ''Failed to get IP information: Invalid IP address format''), st, []) \<and>
   (a < 256 \<and> b < 256 \<and> c < 256 \<and> d < 256 \<longrightarrow>
      isValidIP (dec a @ ''.'' @ dec b @ ''.'' @ dec c @ ''.'' @ dec d))"
  using isValidIP_colon [of s] isValidIP_double [of u v] call_invalid [OF isValidIP_double, of st w u v opts]
    isValidIP_dotted [of a b c d]
  by blast

theorem ip_literal_forms_witness:
  "CHR '':'' \<in> set ''2001:db8:0:0:0:ff00:42:8329'' \<and>
   isValidIP ''2001:db8:0:0:0:ff00:42:8329'' \<and> ipv6_full ''2001:db8:0:0:0:ff00:42:8329'' \<and>
   \<not> isValidIP ''2001:db8::1'' \<and>
   getComprehensiveIPInfo constructor all_fail ''2001:db8::1'' default_options =
     (Inl (Error ''Failed to get IP information: Invalid IP address format''), constructor, []) \<and>
   (192::nat) < 256 \<and> (168::nat) < 256 \<and> (0::nat) < 256 \<and> (1::nat) < 256 \<and>
   isValidIP ''192.168.0.1''"
proof -
  have c: "CHR '':'' \<in> set ''2001:db8:0:0:0:ff00:42:8329''" by simp
  have f: "ipv6_full ''2001:db8:0:0:0:ff00:42:8329''" by code_simp
  have e: "''2001:db8'' @ ''::'' @ ''1'' = ''2001:db8::1''" by simp
  have d: "dec 192 @ ''.'' @ dec 168 @ ''.'' @ dec 0 @ ''.'' @ dec 1 = ''192.168.0.1''" by code_simp
  have n: "(192::nat) < 256" "(168::nat) < 256" "(0::nat) < 256" "(1::nat) < 256" by simp_all
  note t = ip_literal_forms [of "''2001:db8:0:0:0:ff00:42:8329''" "''2001:db8''" "''1''" constructor
      all_fail default_options 192 168 0 1, unfolded e d]
  from t c f have 1: "isValidIP ''2001:db8:0:0:0:ff00:42:8329''" by blast
  from t have 2: "\<not> isValidIP ''2001:db8::1''" by blast
  from t have 3: "getComprehensiveIPInfo constructor all_fail ''2001:db8::1'' default_options =
     (Inl (Error ''Failed to get IP information: Invalid IP address format''), constructor, [])"
    by blast
  from t n have 4: "isValidIP ''192.168.0.1''" by blast
  from c 1 f 2 3 n 4 show ?thesis by blast
qed

subsection \<open>The missing adapter\<close>

text \<open>
  C1. With \<^verbatim>\<open>includeDetailed\<close> set, a call on a valid address that is not answered
  from the cache throws, whatever the adapters do: \<^verbatim>\<open>fetchFromMaxMind\<close> does not
  exist. The basic adapters, if asked for, and \<^verbatim>\<open>fetchFromIPGeolocation\<close> have been
  started by then; no envelope is returned and nothing is cached.
\<close>

theorem missing_adapter_throws:
  "isValidIP ip \<Longrightarrow> includeDetailed opts \<Longrightarrow>
   forceRefresh opts \<or> getFromCache s (now_lookup w) ip = None \<Longrightarrow>
   getComprehensiveIPInfo s w ip opts =
     (Inl (Error ''Failed to get IP information: this.fetchFromMaxMind is not a function''), s,
      (if includeBasic opts \<noteq> Some False then [IPAPI, IPInfo] else []) @ [IPGeolocation])"
proof -
  assume v: "isValidIP ip" and d: "includeDetailed opts"
    and m: "forceRefresh opts \<or> getFromCache s (now_lookup w) ip = None"
  from d have "fst (startProviders opts) =
      (if includeBasic opts \<noteq> Some False then [IPAPI, IPInfo] else []) @ [IPGeolocation]"
    by (simp add: startProviders_def Let_def)
  with call_throw [OF v m d] show ?thesis by simp
qed

theorem missing_adapter_throws_witness:
  "isValidIP ''8.8.8.8'' \<and> includeDetailed (default_options\<lparr>includeDetailed := True\<rparr>) \<and>
   getFromCache constructor (now_lookup all_fail) ''8.8.8.8'' = None \<and>
   getComprehensiveIPInfo constructor all_fail ''8.8.8.8'' (default_options\<lparr>includeDetailed := True\<rparr>) =
     (Inl (Error ''Failed to get IP information: this.fetchFromMaxMind is not a function''),
      constructor, [IPAPI, IPInfo, IPGeolocation])"
proof -
  have v: "isValidIP ''8.8.8.8''" by code_simp
  have d: "includeDetailed (default_options\<lparr>includeDetailed := True\<rparr>)" by simp
  have m: "getFromCache constructor (now_lookup all_fail) ''8.8.8.8'' = None"
    by (simp add: getFromCache_def constructor_def)
  then have m': "forceRefresh (default_options\<lparr>includeDetailed := True\<rparr>) \<or>
      getFromCache constructor (now_lookup all_fail) ''8.8.8.8'' = None" by simp
  from missing_adapter_throws [OF v d m'] v d m show ?thesis
    by (simp add: default_options_def)
qed

subsection \<open>The settled results\<close>

lemma obj_set_fresh: "k \<notin> fst ` set kvs \<Longrightarrow> obj_set kvs k v = kvs @ [(k, v)]"
  by (induction kvs) auto

lemma processResults_split:
  "distinct (map fst (providers @ fulfilled rs)) \<Longrightarrow>
   processResults i rs (providers, errors) = (providers @ fulfilled rs, errors @ rejected i rs)"
proof (induction rs arbitrary: i providers errors)
  case Nil
  show ?case by simp
next
  case (Cons r rs)
  show ?case
  proof (cases r)
    case (Fulfilled n d)
    with Cons.prems have fresh: "n \<notin> fst ` set providers"
      and dist: "distinct (map fst ((providers @ [(n, d)]) @ fulfilled rs))" by auto
    from Cons.IH [OF dist] obj_set_fresh [OF fresh] Fulfilled show ?thesis by simp
  next
    case (Rejected m)
    with Cons.prems have "distinct (map fst (providers @ fulfilled rs))" by simp
    from Cons.IH [OF this] Rejected show ?thesis by simp
  qed
qed

lemma invoke_name: "invoke w a = Fulfilled n d \<Longrightarrow> n = provider_name a"
  by (cases a)
    (auto simp add: fetchFromIPAPI_def fetchFromIPInfo_def fetchFromIPGeolocation_def
      fetchFromShodan_def fetchThreatIntelligence_def settle_def split: sum.splits)

lemma fulfilled_names:
  "set (map fst (fulfilled (map (invoke w) as))) \<subseteq> provider_name ` set as \<and>
   (distinct as \<longrightarrow> distinct (map fst (fulfilled (map (invoke w) as))))"
proof (induction as)
  case Nil
  show ?case by simp
next
  case (Cons a as)
  have inj: "\<And>b. provider_name a = provider_name b \<Longrightarrow> a = b"
    subgoal for b by (cases a; cases b) simp_all
    done
  show ?case
  proof (cases "invoke w a")
    case (Fulfilled n d)
    then have n: "n = provider_name a" by (rule invoke_name)
    from Cons.IH Fulfilled n inj show ?thesis by auto
  next
    case (Rejected m)
    with Cons.IH show ?thesis by auto
  qed
qed

lemma started_distinct: "distinct (fst (startProviders opts))"
  by (auto simp add: startProviders_def Let_def)

lemma envelope_of_started:
  "env_providers (envelope_of w ip (fst (startProviders opts))) =
     fulfilled (map (invoke w) (fst (startProviders opts))) \<and>
   env_errors (envelope_of w ip (fst (startProviders opts))) =
     rejected 0 (map (invoke w) (fst (startProviders opts)))"
proof -
  from fulfilled_names [of w "fst (startProviders opts)"] started_distinct [of opts]
  have "distinct (map fst ([] @ fulfilled (map (invoke w) (fst (startProviders opts)))))" by simp
  from processResults_split [OF this, of 0 "[]"] show ?thesis
    by (simp add: envelope_of_def)
qed

text \<open>
  Without \<^verbatim>\<open>includeDetailed\<close>, the envelope of a call that reaches the adapters has
  the records of the fulfilled promises as its \<^verbatim>\<open>providers\<close> and those of the
  rejected ones as its \<^verbatim>\<open>errors\<close>. That the call returns is a fact of the
  embedding, for records whose categorical values do not name a member of
  \<^verbatim>\<open>Object.prototype\<close>.
\<close>

lemma settled_partition:
  assumes "isValidIP ip" "forceRefresh opts \<or> getFromCache s (now_lookup w) ip = None"
    "\<not> includeDetailed opts"
  shows "\<exists>e s'. getComprehensiveIPInfo s w ip opts = (Inr e, s', fst (startProviders opts)) \<and>
     env_providers e = fulfilled (map (invoke w) (fst (startProviders opts))) \<and>
     env_errors e = rejected 0 (map (invoke w) (fst (startProviders opts))) \<and>
     cache s' ip = Some \<lparr>entry_timestamp = now_store w, entry_data = e\<rparr>"
  using call_dispatch [OF assms] envelope_of_started [of w ip opts]
  by (simp add: cache_after_dispatch)

lemma all_rejected:
  "\<forall>a\<in>set as. \<exists>m. invoke w a = Rejected m \<Longrightarrow>
   fulfilled (map (invoke w) as) = [] \<and> length (rejected i (map (invoke w) as)) = length as"
  by (induction as arbitrary: i) auto

lemma aggregate_nothing: "aggregateProviderData [] = nothing_aggregated"
  by (simp add: aggregateProviderData_def nothing_aggregated_def object_values_def object_entries_def
      push_strings_def push_numbers_def getMostCommon_def getAverage_def List.map_filter_simps)

lemma confidence_nothing: "calculateConfidenceScores [] = empty_object"
  by (simp add: calculateConfidenceScores_def object_keys_def object_entries_def)

text \<open>
  C2 as stated fails: with every adapter failing, \<^verbatim>\<open>confidence\<close> is the empty object,
  its \<^verbatim>\<open>overall\<close> is not 0.
\<close>

theorem zero_success_counterexample:
  "fst (getComprehensiveIPInfo constructor all_fail ''8.8.8.8'' default_options) = Inr all_fail_envelope \<and>
   conf_overall (env_confidence all_fail_envelope) \<noteq> Some 0"
proof -
  have v: "isValidIP ''8.8.8.8''" by code_simp
  have m: "forceRefresh default_options \<or> getFromCache constructor (now_lookup all_fail) ''8.8.8.8'' = None"
    by (simp add: getFromCache_def constructor_def)
  have d: "\<not> includeDetailed default_options" by (simp add: default_options_def)
  have s: "fst (startProviders default_options) = [IPAPI, IPInfo]"
    by (simp add: startProviders_def default_options_def)
  have n: "dec 0 = ''0''" "dec (Suc 0) = ''1''" by code_simp+
  have pr: "processResults 0 (map (invoke all_fail) [IPAPI, IPInfo]) ([], []) =
      ([], [(''provider_0'', ''Failed to fetch''), (''provider_1'', ''Failed to fetch'')])"
    by (simp add: fetchFromIPAPI_def fetchFromIPInfo_def settle_def all_fail_def n)
  have "envelope_of all_fail ''8.8.8.8'' [IPAPI, IPInfo] = all_fail_envelope"
    unfolding envelope_of_def pr
    by (simp add: aggregate_nothing confidence_nothing all_fail_envelope_def analyzeThreatData_def
        extractServiceInfo_def object_values_def object_entries_def all_fail_def)
  with call_dispatch [OF v m d] s show ?thesis
    by (simp add: all_fail_envelope_def empty_object_def)
qed

text \<open>
  C2, amended. On a valid key, when the call reaches the adapters without
  \<^verbatim>\<open>includeDetailed\<close> and every started adapter is rejected, the call returns an
  envelope: no provider record, one error entry for each adapter, every aggregated
  field \<^verbatim>\<open>null\<close>, and the empty object as \<^verbatim>\<open>confidence\<close>, which has no \<^verbatim>\<open>overall\<close>.
  The envelope is cached.
\<close>

theorem zero_success_envelope:
  assumes "isValidIP ip" "forceRefresh opts \<or> getFromCache s (now_lookup w) ip = None"
    "\<not> includeDetailed opts"
    "\<forall>a\<in>set (fst (startProviders opts)). \<exists>m. invoke w a = Rejected m"
  shows "\<exists>e s'. getComprehensiveIPInfo s w ip opts = (Inr e, s', fst (startProviders opts)) \<and>
     env_providers e = [] \<and>
     length (env_errors e) = length (fst (startProviders opts)) \<and>
     env_aggregated e = nothing_aggregated \<and>
     env_confidence e = empty_object \<and> conf_overall (env_confidence e) = None \<and>
     cache s' ip = Some \<lparr>entry_timestamp = now_store w, entry_data = e\<rparr>"
proof -
  let ?started = "fst (startProviders opts)"
  let ?e = "envelope_of w ip ?started"
  from all_rejected [OF assms(4), of 0] envelope_of_started [of w ip opts]
  have p: "env_providers ?e = []" and l: "length (env_errors ?e) = length ?started" by simp_all
  have "env_aggregated ?e = aggregateProviderData (env_providers ?e)"
    "env_confidence ?e = calculateConfidenceScores (env_providers ?e)"
    by (simp_all add: envelope_of_def split: prod.splits)
  with p have a: "env_aggregated ?e = nothing_aggregated" and c: "env_confidence ?e = empty_object"
    by (simp_all add: aggregate_nothing confidence_nothing)
  from call_dispatch [OF assms(1-3)] p l a c show ?thesis
    by (simp add: cache_after_dispatch empty_object_def)
qed

theorem zero_success_envelope_witness:
  "isValidIP ''8.8.8.8'' \<and>
   (forceRefresh default_options \<or> getFromCache constructor (now_lookup all_fail) ''8.8.8.8'' = None) \<and>
   \<not> includeDetailed default_options \<and>
   fst (startProviders default_options) = [IPAPI, IPInfo] \<and>
   invoke all_fail IPAPI = Rejected ''Failed to fetch'' \<and>
   invoke all_fail IPInfo = Rejected ''Failed to fetch'' \<and>
   (\<exists>e s'. getComprehensiveIPInfo constructor all_fail ''8.8.8.8'' default_options = (Inr e, s', [IPAPI, IPInfo]) \<and>
     env_providers e = [] \<and> length (env_errors e) = 2 \<and>
     env_aggregated e = nothing_aggregated \<and> conf_overall (env_confidence e) = None)"
proof -
  have v: "isValidIP ''8.8.8.8''" by code_simp
  have m: "forceRefresh default_options \<or> getFromCache constructor (now_lookup all_fail) ''8.8.8.8'' = None"
    by (simp add: getFromCache_def constructor_def)
  have d: "\<not> includeDetailed default_options" by (simp add: default_options_def)
  have s: "fst (startProviders default_options) = [IPAPI, IPInfo]"
    by (simp add: startProviders_def default_options_def)
  have i: "invoke all_fail IPAPI = Rejected ''Failed to fetch''"
    "invoke all_fail IPInfo = Rejected ''Failed to fetch''"
    by (simp_all add: fetchFromIPAPI_def fetchFromIPInfo_def settle_def all_fail_def)
  then have r: "\<forall>a\<in>set (fst (startProviders default_options)). \<exists>m. invoke all_fail a = Rejected m"
    unfolding s by simp
  from zero_success_envelope [OF v m d r]
  have "\<exists>e s'. getComprehensiveIPInfo constructor all_fail ''8.8.8.8'' default_options = (Inr e, s', [IPAPI, IPInfo]) \<and>
     env_providers e = [] \<and> length (env_errors e) = 2 \<and>
     env_aggregated e = nothing_aggregated \<and> conf_overall (env_confidence e) = None"
    unfolding s by auto
  with v m d s i show ?thesis by blast
qed

subsection \<open>The cache\<close>

lemma valid_example: "isValidIP ''8.8.8.8''"
  by code_simp

lemma first_call_example:
  "getComprehensiveIPInfo constructor all_fail ''8.8.8.8'' default_options =
     (Inr all_fail_envelope, after_all_fail, [IPAPI, IPInfo])"
proof -
  have m: "forceRefresh default_options \<or> getFromCache constructor (now_lookup all_fail) ''8.8.8.8'' = None"
    by (simp add: getFromCache_def constructor_def)
  have d: "\<not> includeDetailed default_options" by (simp add: default_options_def)
  have s: "fst (startProviders default_options) = [IPAPI, IPInfo]"
    by (simp add: startProviders_def default_options_def)
  have n: "dec 0 = ''0''" "dec (Suc 0) = ''1''" by code_simp+
  have pr: "processResults 0 (map (invoke all_fail) [IPAPI, IPInfo]) ([], []) =
      ([], [(''provider_0'', ''Failed to fetch''), (''provider_1'', ''Failed to fetch'')])"
    by (simp add: fetchFromIPAPI_def fetchFromIPInfo_def settle_def all_fail_def n)
  have e: "envelope_of all_fail ''8.8.8.8'' [IPAPI, IPInfo] = all_fail_envelope"
    unfolding envelope_of_def pr
    by (simp add: aggregate_nothing confidence_nothing all_fail_envelope_def analyzeThreatData_def
        extractServiceInfo_def object_values_def object_entries_def all_fail_def)
  have "addToHistory (cacheResults constructor (now_store all_fail) ''8.8.8.8'' all_fail_envelope)
          (now_history all_fail) ''8.8.8.8'' all_fail_envelope = after_all_fail"
    by (simp add: addToHistory_def cacheResults_def constructor_def after_all_fail_def all_fail_def
        maxHistorySize_def object_keys_def object_entries_def all_fail_envelope_def)
  with call_dispatch [OF valid_example m d] s e show ?thesis by simp
qed

lemma invoked_on_miss:
  "isValidIP ip \<Longrightarrow> forceRefresh opts \<or> getFromCache s (now_lookup w) ip = None \<Longrightarrow>
   snd (snd (getComprehensiveIPInfo s w ip opts)) = fst (startProviders opts)"
  using call_throw [of ip opts s w] call_dispatch [of ip opts s w]
  by (cases "includeDetailed opts") simp_all

lemma started_basic:
  "includeBasic opts \<noteq> Some False \<Longrightarrow>
   IPAPI \<in> set (fst (startProviders opts)) \<and> IPInfo \<in> set (fst (startProviders opts))"
  by (simp add: startProviders_def Let_def)

lemma second_call_hit:
  assumes "getComprehensiveIPInfo s w1 ip o1 = (Inr e, s1, c1)" "\<not> forceRefresh o2"
    "cache s1 ip = Some ce" "now_lookup w2 - entry_timestamp ce < cacheExpiry"
  shows "getComprehensiveIPInfo s1 w2 ip o2 = (Inr e, s1, [])"
proof -
  from call_result_cached [OF assms(1)] assms(3)
  have v: "isValidIP ip" and e: "entry_data ce = e" by auto
  from assms(3,4) e have "getFromCache s1 (now_lookup w2) ip = Some e"
    by (simp add: getFromCache_def)
  from call_hit [OF v assms(2) this] show ?thesis .
qed

lemma dispatch_result:
  assumes "getComprehensiveIPInfo s w ip opts = (Inr e, s1, c1)"
    "forceRefresh opts \<or> getFromCache s (now_lookup w) ip = None"
  shows "c1 = fst (startProviders opts) \<and>
     cache s1 ip = Some \<lparr>entry_timestamp = now_store w, entry_data = e\<rparr> \<and>
     env_providers e = fulfilled (map (invoke w) (fst (startProviders opts)))"
proof -
  from call_result_cached [OF assms(1)] have v: "isValidIP ip" by simp
  have d: "\<not> includeDetailed opts"
  proof
    assume "includeDetailed opts"
    from call_throw [OF v assms(2) this] assms(1) show False by simp
  qed
  from call_dispatch [OF v assms(2) d] assms(1) envelope_of_started [of w ip opts]
  show ?thesis by (auto simp add: cache_after_dispatch)
qed

text \<open>
  The cache entry of a key lives for 24 hours: \<^verbatim>\<open>getFromCache\<close> answers \<^verbatim>\<open>null\<close>
  exactly when the key has no entry or the entry is at least that old. A call that has
  gone to the adapters and returned an envelope has stored it under the time read by
  \<^verbatim>\<open>cacheResults\<close>. After a call has returned an envelope, a call without
  \<^verbatim>\<open>forceRefresh\<close> that finds the key's entry younger than 24 hours returns the same
  envelope, invokes no adapter and leaves the state as it is. When the entry is 24 hours
  old or older, the call starts the adapters its options select, also without
  \<^verbatim>\<open>forceRefresh\<close>; unless \<^verbatim>\<open>includeBasic\<close> is \<^verbatim>\<open>false\<close> these include the two
  basic ones.
\<close>

lemma cache_ttl:
  "cacheExpiry = 86400000 \<and>
   (getFromCache s now ip = None \<longleftrightarrow>
      cache s ip = None \<or> (\<exists>ce. cache s ip = Some ce \<and> now - entry_timestamp ce \<ge> cacheExpiry)) \<and>
   (getComprehensiveIPInfo s w1 ip o1 = (Inr e, s1, c1) \<and>
      (forceRefresh o1 \<or> getFromCache s (now_lookup w1) ip = None) \<longrightarrow>
      c1 = fst (startProviders o1) \<and>
      cache s1 ip = Some \<lparr>entry_timestamp = now_store w1, entry_data = e\<rparr>) \<and>
   (getComprehensiveIPInfo s w1 ip o1 = (Inr e, s1, c1) \<and> \<not> forceRefresh o2 \<and>
      cache s1 ip = Some ce \<and> now_lookup w2 - entry_timestamp ce < cacheExpiry \<longrightarrow>
      getComprehensiveIPInfo s1 w2 ip o2 = (Inr e, s1, [])) \<and>
   (isValidIP ip \<and> cache s1 ip = Some ce \<and> now_lookup w2 - entry_timestamp ce \<ge> cacheExpiry \<longrightarrow>
      snd (snd (getComprehensiveIPInfo s1 w2 ip o2)) = fst (startProviders o2) \<and>
      (includeBasic o2 \<noteq> Some False \<longrightarrow>
         IPAPI \<in> set (snd (snd (getComprehensiveIPInfo s1 w2 ip o2))) \<and>
         IPInfo \<in> set (snd (snd (getComprehensiveIPInfo s1 w2 ip o2)))))"
proof (intro conjI impI)
  show "cacheExpiry = 86400000" by (simp add: cacheExpiry_def)
next
  show "getFromCache s now ip = None \<longleftrightarrow>
      cache s ip = None \<or> (\<exists>ce. cache s ip = Some ce \<and> now - entry_timestamp ce \<ge> cacheExpiry)"
    by (rule getFromCache_None)
next
  assume a: "getComprehensiveIPInfo s w1 ip o1 = (Inr e, s1, c1) \<and>
      (forceRefresh o1 \<or> getFromCache s (now_lookup w1) ip = None)"
  from a dispatch_result [of s w1 ip o1 e s1 c1]
  show "c1 = fst (startProviders o1)"
    "cache s1 ip = Some \<lparr>entry_timestamp = now_store w1, entry_data = e\<rparr>" by blast+
next
  assume "getComprehensiveIPInfo s w1 ip o1 = (Inr e, s1, c1) \<and> \<not> forceRefresh o2 \<and>
      cache s1 ip = Some ce \<and> now_lookup w2 - entry_timestamp ce < cacheExpiry"
  then show "getComprehensiveIPInfo s1 w2 ip o2 = (Inr e, s1, [])"
    using second_call_hit [of s w1 ip o1 e s1 c1 o2 ce w2] by blast
next
  assume a: "isValidIP ip \<and> cache s1 ip = Some ce \<and> now_lookup w2 - entry_timestamp ce \<ge> cacheExpiry"
  then have miss: "forceRefresh o2 \<or> getFromCache s1 (now_lookup w2) ip = None"
    by (simp add: getFromCache_def)
  from a invoked_on_miss [OF _ miss]
  show i: "snd (snd (getComprehensiveIPInfo s1 w2 ip o2)) = fst (startProviders o2)" by simp
  assume b: "includeBasic o2 \<noteq> Some False"
  from started_basic [OF b] i
  show "IPAPI \<in> set (snd (snd (getComprehensiveIPInfo s1 w2 ip o2)))"
    "IPInfo \<in> set (snd (snd (getComprehensiveIPInfo s1 w2 ip o2)))" by simp_all
qed

lemma cache_ttl_example:
  "getFromCache constructor (now_lookup all_fail) ''8.8.8.8'' = None \<and>
   getComprehensiveIPInfo constructor all_fail ''8.8.8.8'' default_options =
     (Inr all_fail_envelope, after_all_fail, [IPAPI, IPInfo]) \<and>
   cache after_all_fail ''8.8.8.8'' = Some \<lparr>entry_timestamp = 1500, entry_data = all_fail_envelope\<rparr> \<and>
   \<not> forceRefresh default_options \<and> includeBasic default_options \<noteq> Some False \<and>
   (86401499::int) - 1500 < cacheExpiry \<and>
   getComprehensiveIPInfo after_all_fail (all_fail\<lparr>now_lookup := 86401499\<rparr>) ''8.8.8.8'' default_options =
     (Inr all_fail_envelope, after_all_fail, []) \<and>
   (86401500::int) - 1500 \<ge> cacheExpiry \<and>
   getFromCache after_all_fail 86401500 ''8.8.8.8'' = None \<and>
   snd (snd (getComprehensiveIPInfo after_all_fail (all_fail\<lparr>now_lookup := 86401500\<rparr>) ''8.8.8.8''
     default_options)) = [IPAPI, IPInfo]"
proof -
  let ?ce = "\<lparr>entry_timestamp = 1500, entry_data = all_fail_envelope\<rparr>"
  note hit = cache_ttl [where s = constructor and ?w1.0 = all_fail and ip = "''8.8.8.8''"
      and ?o1.0 = default_options and e = all_fail_envelope and ?s1.0 = after_all_fail
      and ?c1.0 = "[IPAPI, IPInfo]" and ?o2.0 = default_options and ce = ?ce
      and ?w2.0 = "all_fail\<lparr>now_lookup := 86401499\<rparr>"]
  note expired = cache_ttl [where s = after_all_fail and now = 86401500 and ip = "''8.8.8.8''"
      and ?s1.0 = after_all_fail and ?o2.0 = default_options and ce = ?ce
      and ?w2.0 = "all_fail\<lparr>now_lookup := 86401500\<rparr>"]
  have m: "getFromCache constructor (now_lookup all_fail) ''8.8.8.8'' = None"
    by (simp add: getFromCache_def constructor_def)
  from hit first_call_example m
  have "cache after_all_fail ''8.8.8.8'' =
      Some \<lparr>entry_timestamp = now_store all_fail, entry_data = all_fail_envelope\<rparr>" by blast
  then have c: "cache after_all_fail ''8.8.8.8'' = Some ?ce" by (simp add: all_fail_def)
  have o: "\<not> forceRefresh default_options" "includeBasic default_options \<noteq> Some False"
    by (simp_all add: default_options_def)
  have s: "fst (startProviders default_options) = [IPAPI, IPInfo]"
    by (simp add: startProviders_def default_options_def)
  have t1: "now_lookup (all_fail\<lparr>now_lookup := 86401499\<rparr>) - entry_timestamp ?ce < cacheExpiry"
    and t2: "now_lookup (all_fail\<lparr>now_lookup := 86401500\<rparr>) - entry_timestamp ?ce \<ge> cacheExpiry"
    and t3: "(86401499::int) - 1500 < cacheExpiry" "(86401500::int) - 1500 \<ge> cacheExpiry"
    by (simp_all add: cacheExpiry_def)
  from hit first_call_example o(1) c t1
  have 1: "getComprehensiveIPInfo after_all_fail (all_fail\<lparr>now_lookup := 86401499\<rparr>) ''8.8.8.8''
      default_options = (Inr all_fail_envelope, after_all_fail, [])" by blast
  from expired valid_example c t2 s
  have 2: "snd (snd (getComprehensiveIPInfo after_all_fail (all_fail\<lparr>now_lookup := 86401500\<rparr>)
      ''8.8.8.8'' default_options)) = [IPAPI, IPInfo]" by metis
  from expired c t3(2)
  have 3: "getFromCache after_all_fail 86401500 ''8.8.8.8'' = None" by (simp add: c)
  from m first_call_example c o t3 1 2 3 show ?thesis by blast
qed

text \<open>
  C7. Two calls for one key with \<^verbatim>\<open>includeDetailed\<close> set, on an instance that has no
  entry for the key, do not share an envelope: each of them throws at the call of the
  missing \<^verbatim>\<open>fetchFromMaxMind\<close>, whatever the times of the calls, \<^verbatim>\<open>forceRefresh\<close>
  and the adapters are. The first call leaves the state as it was, with nothing cached,
  so the second call starts its adapters again.
\<close>

theorem cache_never_filled_when_detailed:
  "isValidIP ip \<and> cache s ip = None \<and> includeDetailed o1 \<and> includeDetailed o2 \<longrightarrow>
     getComprehensiveIPInfo s w1 ip o1 =
       (Inl (Error ''Failed to get IP information: this.fetchFromMaxMind is not a function''), s,
        (if includeBasic o1 \<noteq> Some False then [IPAPI, IPInfo] else []) @ [IPGeolocation]) \<and>
     getComprehensiveIPInfo s w2 ip o2 =
       (Inl (Error ''Failed to get IP information: this.fetchFromMaxMind is not a function''), s,
        (if includeBasic o2 \<noteq> Some False then [IPAPI, IPInfo] else []) @ [IPGeolocation])"
proof (intro impI)
  assume a: "isValidIP ip \<and> cache s ip = None \<and> includeDetailed o1 \<and> includeDetailed o2"
  then have v: "isValidIP ip" and d1: "includeDetailed o1" and d2: "includeDetailed o2" by simp_all
  from a have m: "\<And>w opts. forceRefresh opts \<or> getFromCache s (now_lookup w) ip = None"
    by (simp add: getFromCache_def)
  have st: "\<And>opts. includeDetailed opts \<Longrightarrow> fst (startProviders opts) =
      (if includeBasic opts \<noteq> Some False then [IPAPI, IPInfo] else []) @ [IPGeolocation]"
    by (simp add: startProviders_def Let_def)
  from call_throw [OF v m d1, of w1] call_throw [OF v m d2, of w2] st [OF d1] st [OF d2]
  show "getComprehensiveIPInfo s w1 ip o1 =
       (Inl (Error ''Failed to get IP information: this.fetchFromMaxMind is not a function''), s,
        (if includeBasic o1 \<noteq> Some False then [IPAPI, IPInfo] else []) @ [IPGeolocation]) \<and>
     getComprehensiveIPInfo s w2 ip o2 =
       (Inl (Error ''Failed to get IP information: this.fetchFromMaxMind is not a function''), s,
        (if includeBasic o2 \<noteq> Some False then [IPAPI, IPInfo] else []) @ [IPGeolocation])"
    by simp
qed

theorem cache_never_filled_when_detailed_witness:
  "isValidIP ''8.8.8.8'' \<and> cache constructor ''8.8.8.8'' = None \<and>
   includeDetailed (default_options\<lparr>includeDetailed := True\<rparr>) \<and>
   \<not> forceRefresh (default_options\<lparr>includeDetailed := True\<rparr>) \<and>
   now_lookup (all_fail\<lparr>now_lookup := 2000\<rparr>) - now_lookup all_fail < cacheExpiry \<and>
   getComprehensiveIPInfo constructor all_fail ''8.8.8.8'' (default_options\<lparr>includeDetailed := True\<rparr>) =
     (Inl (Error ''Failed to get IP information: this.fetchFromMaxMind is not a function''),
      constructor, [IPAPI, IPInfo, IPGeolocation]) \<and>
   getComprehensiveIPInfo constructor (all_fail\<lparr>now_lookup := 2000\<rparr>) ''8.8.8.8''
       (default_options\<lparr>includeDetailed := True\<rparr>) =
     (Inl (Error ''Failed to get IP information: this.fetchFromMaxMind is not a function''),
      constructor, [IPAPI, IPInfo, IPGeolocation])"
proof -
  let ?o = "default_options\<lparr>includeDetailed := True\<rparr>"
  have c: "cache constructor ''8.8.8.8'' = None" by (simp add: constructor_def)
  have d: "includeDetailed ?o" by simp
  have f: "\<not> forceRefresh ?o" by (simp add: default_options_def)
  have b: "includeBasic ?o \<noteq> Some False" by (simp add: default_options_def)
  have t: "now_lookup (all_fail\<lparr>now_lookup := 2000\<rparr>) - now_lookup all_fail < cacheExpiry"
    by (simp add: all_fail_def cacheExpiry_def)
  from cache_never_filled_when_detailed [of "''8.8.8.8''" constructor ?o ?o all_fail
      "all_fail\<lparr>now_lookup := 2000\<rparr>"] valid_example c d
  have "getComprehensiveIPInfo constructor all_fail ''8.8.8.8'' ?o =
     (Inl (Error ''Failed to get IP information: this.fetchFromMaxMind is not a function''),
      constructor, (if includeBasic ?o \<noteq> Some False then [IPAPI, IPInfo] else []) @ [IPGeolocation])"
    "getComprehensiveIPInfo constructor (all_fail\<lparr>now_lookup := 2000\<rparr>) ''8.8.8.8'' ?o =
     (Inl (Error ''Failed to get IP information: this.fetchFromMaxMind is not a function''),
      constructor, (if includeBasic ?o \<noteq> Some False then [IPAPI, IPInfo] else []) @ [IPGeolocation])"
    by blast+
  with b have r: "getComprehensiveIPInfo constructor all_fail ''8.8.8.8'' ?o =
     (Inl (Error ''Failed to get IP information: this.fetchFromMaxMind is not a function''),
      constructor, [IPAPI, IPInfo, IPGeolocation])"
    "getComprehensiveIPInfo constructor (all_fail\<lparr>now_lookup := 2000\<rparr>) ''8.8.8.8'' ?o =
     (Inl (Error ''Failed to get IP information: this.fetchFromMaxMind is not a function''),
      constructor, [IPAPI, IPInfo, IPGeolocation])"
    by simp_all
  from valid_example c d f t r show ?thesis by blast
qed

text \<open>
  C9. The cache is looked up with the IP string alone. When the key has an entry younger
  than 24 hours and \<^verbatim>\<open>forceRefresh\<close> is not set, the call returns the stored envelope
  and invokes no adapter, whatever \<^verbatim>\<open>includeBasic\<close>, \<^verbatim>\<open>includeDetailed\<close> and
  \<^verbatim>\<open>includeThreatIntel\<close> are. So when a call without options has gone to the adapters,
  which are the two basic ones, and returned an envelope, a call within 24 hours that
  asks for threat intelligence gets that envelope, without a record of \<^verbatim>\<open>shodan\<close> or
  \<^verbatim>\<open>threat_intel\<close>, and invokes no adapter.
\<close>

theorem cache_hit_ignores_options:
  "(isValidIP ip \<and> cache s ip = Some ce \<and> now_lookup w - entry_timestamp ce < cacheExpiry \<longrightarrow>
      getComprehensiveIPInfo s w ip
        \<lparr>forceRefresh = False, includeBasic = b, includeDetailed = d, includeThreatIntel = t\<rparr> =
        (Inr (entry_data ce), s, [])) \<and>
   (getComprehensiveIPInfo s w1 ip default_options = (Inr e, s1, c1) \<and>
      getFromCache s (now_lookup w1) ip = None \<and> now_lookup w2 - now_store w1 < cacheExpiry \<longrightarrow>
      c1 = [IPAPI, IPInfo] \<and>
      obj_get (env_providers e) ''shodan'' = None \<and>
      obj_get (env_providers e) ''threat_intel'' = None \<and>
      getComprehensiveIPInfo s1 w2 ip (default_options\<lparr>includeThreatIntel := True\<rparr>) = (Inr e, s1, []))"
proof (intro conjI impI)
  assume a: "isValidIP ip \<and> cache s ip = Some ce \<and> now_lookup w - entry_timestamp ce < cacheExpiry"
  then have "getFromCache s (now_lookup w) ip = Some (entry_data ce)"
    by (simp add: getFromCache_def)
  with a call_hit [of ip "\<lparr>forceRefresh = False, includeBasic = b, includeDetailed = d, includeThreatIntel = t\<rparr>" s w "entry_data ce"]
  show "getComprehensiveIPInfo s w ip
        \<lparr>forceRefresh = False, includeBasic = b, includeDetailed = d, includeThreatIntel = t\<rparr> =
        (Inr (entry_data ce), s, [])" by simp
next
  assume a: "getComprehensiveIPInfo s w1 ip default_options = (Inr e, s1, c1) \<and>
      getFromCache s (now_lookup w1) ip = None \<and> now_lookup w2 - now_store w1 < cacheExpiry"
  have st: "fst (startProviders default_options) = [IPAPI, IPInfo]"
    by (simp add: startProviders_def default_options_def)
  from a dispatch_result [of s w1 ip default_options e s1 c1]
  have c1: "c1 = [IPAPI, IPInfo]"
    and p: "env_providers e = fulfilled (map (invoke w1) [IPAPI, IPInfo])"
    and c: "cache s1 ip = Some \<lparr>entry_timestamp = now_store w1, entry_data = e\<rparr>"
    unfolding st by blast+
  from fulfilled_names [of w1 "[IPAPI, IPInfo]"] p
  have "fst ` set (env_providers e) \<subseteq> {''ipapi'', ''ipinfo''}" by auto
  then have "''shodan'' \<notin> fst ` set (env_providers e)" "''threat_intel'' \<notin> fst ` set (env_providers e)"
    by auto
  then have n: "obj_get (env_providers e) ''shodan'' = None" "obj_get (env_providers e) ''threat_intel'' = None"
    by (simp_all add: obj_get_def map_of_eq_None_iff)
  have f: "\<not> forceRefresh (default_options\<lparr>includeThreatIntel := True\<rparr>)" by (simp add: default_options_def)
  from a have r: "getComprehensiveIPInfo s w1 ip default_options = (Inr e, s1, c1)" by simp
  from second_call_hit [OF r f c] a
  have h: "getComprehensiveIPInfo s1 w2 ip (default_options\<lparr>includeThreatIntel := True\<rparr>) = (Inr e, s1, [])"
    by simp
  from c1 show "c1 = [IPAPI, IPInfo]" .
  from n show "obj_get (env_providers e) ''shodan'' = None" "obj_get (env_providers e) ''threat_intel'' = None" .
  from h show "getComprehensiveIPInfo s1 w2 ip (default_options\<lparr>includeThreatIntel := True\<rparr>) = (Inr e, s1, [])" .
qed

theorem cache_hit_ignores_options_witness:
  "isValidIP ''8.8.8.8'' \<and>
   cache after_all_fail ''8.8.8.8'' = Some \<lparr>entry_timestamp = 1500, entry_data = all_fail_envelope\<rparr> \<and>
   (2000::int) - 1500 < cacheExpiry \<and>
   getComprehensiveIPInfo after_all_fail (all_fail\<lparr>now_lookup := 2000\<rparr>) ''8.8.8.8''
     \<lparr>forceRefresh = False, includeBasic = Some False, includeDetailed = True, includeThreatIntel = True\<rparr> =
     (Inr all_fail_envelope, after_all_fail, []) \<and>
   getFromCache constructor (now_lookup all_fail) ''8.8.8.8'' = None \<and>
   getComprehensiveIPInfo constructor all_fail ''8.8.8.8'' default_options =
     (Inr all_fail_envelope, after_all_fail, [IPAPI, IPInfo]) \<and>
   getComprehensiveIPInfo after_all_fail (all_fail\<lparr>now_lookup := 2000\<rparr>) ''8.8.8.8''
     (default_options\<lparr>includeThreatIntel := True\<rparr>) = (Inr all_fail_envelope, after_all_fail, [])"
proof -
  let ?ce = "\<lparr>entry_timestamp = 1500, entry_data = all_fail_envelope\<rparr>"
  let ?w2 = "all_fail\<lparr>now_lookup := 2000\<rparr>"
  have c: "cache after_all_fail ''8.8.8.8'' = Some ?ce" by (simp add: after_all_fail_def)
  have t: "now_lookup ?w2 - entry_timestamp ?ce < cacheExpiry" "(2000::int) - 1500 < cacheExpiry"
    "now_lookup ?w2 - now_store all_fail < cacheExpiry"
    by (simp_all add: cacheExpiry_def all_fail_def)
  have m: "getFromCache constructor (now_lookup all_fail) ''8.8.8.8'' = None"
    by (simp add: getFromCache_def constructor_def)
  note th1 = cache_hit_ignores_options [where ip = "''8.8.8.8''" and s = after_all_fail and ce = ?ce
      and w = ?w2 and b = "Some False" and d = True and t = True]
  note th2 = cache_hit_ignores_options [where ip = "''8.8.8.8''" and s = constructor
      and ?w1.0 = all_fail and ?w2.0 = ?w2 and e = all_fail_envelope and ?s1.0 = after_all_fail
      and ?c1.0 = "[IPAPI, IPInfo]"]
  from th1 valid_example c t(1)
  have 1: "getComprehensiveIPInfo after_all_fail ?w2 ''8.8.8.8''
     \<lparr>forceRefresh = False, includeBasic = Some False, includeDetailed = True, includeThreatIntel = True\<rparr> =
     (Inr all_fail_envelope, after_all_fail, [])" by simp
  from th2 first_call_example m t(3)
  have 2: "getComprehensiveIPInfo after_all_fail ?w2 ''8.8.8.8''
     (default_options\<lparr>includeThreatIntel := True\<rparr>) = (Inr all_fail_envelope, after_all_fail, [])" by blast
  from valid_example c t(2) 1 m first_call_example 2 show ?thesis by blast
qed

subsection \<open>Confidence and averages\<close>

lemma object_keys_length: "length (object_keys obj) = length obj"
  by (simp add: object_keys_def object_entries_def sum_length_filter_compl)

lemma object_entries_plain:
  "\<forall>kv\<in>set obj. \<not> is_array_index (fst kv) \<Longrightarrow> object_entries obj = obj"
proof -
  assume a: "\<forall>kv\<in>set obj. \<not> is_array_index (fst kv)"
  then have "filter (\<lambda>kv. is_array_index (fst kv)) obj = []"
    "filter (\<lambda>kv. \<not> is_array_index (fst kv)) obj = obj"
    by (simp_all add: filter_empty_conv filter_id_conv)
  then show ?thesis by (simp add: object_entries_def)
qed

lemma names_plain:
  "\<not> is_array_index ''ipapi''" "\<not> is_array_index ''ipinfo''" "\<not> is_array_index ''ipgeolocation''"
  "\<not> is_array_index ''shodan''" "\<not> is_array_index ''threat_intel''"
  by code_simp+

lemma confidence_some:
  assumes "object_keys providers \<noteq> []"
  shows "calculateConfidenceScores providers =
     \<lparr>conf_overall = Some (min 1 (0.25 * real (length (object_keys providers)))),
      conf_location = Some (min 1 (0.25 * real (length (object_keys providers)))),
      conf_network = Some (min 1 (0.25 * real (length (object_keys providers)))),
      conf_security = Some (min 1 (0.25 * real (length (object_keys providers))) * 0.8)\<rparr>"
  using assms by (simp add: calculateConfidenceScores_def Let_def min.commute mult.commute)

lemma confidence_none:
  "object_keys providers = [] \<Longrightarrow> calculateConfidenceScores providers = empty_object"
  by (simp add: calculateConfidenceScores_def)

text \<open>
  C4 as stated fails for a provider count of 0: the scorer returns the empty object, and
  its \<^verbatim>\<open>overall\<close> is not \<open>min 1 (0.25 * 0)\<close>.
\<close>

theorem confidence_formula_counterexample:
  "conf_overall (calculateConfidenceScores []) \<noteq>
     Some (min 1 (0.25 * real (length (object_keys ([] :: provider_data obj)))))"
  by (simp add: confidence_nothing empty_object_def)

text \<open>
  C4, amended. With at least one provider record, \<^verbatim>\<open>overall\<close> is
  \<open>min 1 (0.25 * providerCount)\<close>, \<^verbatim>\<open>location\<close> and \<^verbatim>\<open>network\<close> are equal to it and
  \<^verbatim>\<open>security\<close> is \<open>overall * 0.8\<close>. With none the result is the empty object. The
  provider count is the number of records.
\<close>

theorem confidence_formula:
  "(object_keys providers \<noteq> [] \<longrightarrow>
      calculateConfidenceScores providers =
        \<lparr>conf_overall = Some (min 1 (0.25 * real (length (object_keys providers)))),
         conf_location = Some (min 1 (0.25 * real (length (object_keys providers)))),
         conf_network = Some (min 1 (0.25 * real (length (object_keys providers)))),
         conf_security = Some (min 1 (0.25 * real (length (object_keys providers))) * 0.8)\<rparr>) \<and>
   (object_keys providers = [] \<longrightarrow> calculateConfidenceScores providers = empty_object) \<and>
   length (object_keys providers) = length providers"
  using confidence_some [of providers] confidence_none [of providers] object_keys_length [of providers]
  by blast

theorem confidence_formula_witness:
  "object_keys equator_example \<noteq> [] \<and> length (object_keys equator_example) = 2 \<and>
   calculateConfidenceScores equator_example =
     \<lparr>conf_overall = Some (1 / 2), conf_location = Some (1 / 2), conf_network = Some (1 / 2),
      conf_security = Some (2 / 5)\<rparr> \<and>
   object_keys ([] :: provider_data obj) = [] \<and>
   calculateConfidenceScores [] = empty_object"
proof -
  have l: "length (object_keys equator_example) = 2"
    by (simp add: object_keys_length equator_example_def)
  then have n: "object_keys equator_example \<noteq> []" by auto
  have e: "object_keys ([] :: provider_data obj) = []"
    by (simp add: object_keys_def object_entries_def)
  from confidence_formula [of equator_example] n
  have "calculateConfidenceScores equator_example =
     \<lparr>conf_overall = Some (min 1 (0.25 * real (length (object_keys equator_example)))),
      conf_location = Some (min 1 (0.25 * real (length (object_keys equator_example)))),
      conf_network = Some (min 1 (0.25 * real (length (object_keys equator_example)))),
      conf_security = Some (min 1 (0.25 * real (length (object_keys equator_example))) * 0.8)\<rparr>"
    by blast
  then have 1: "calculateConfidenceScores equator_example =
     \<lparr>conf_overall = Some (1 / 2), conf_location = Some (1 / 2), conf_network = Some (1 / 2),
      conf_security = Some (2 / 5)\<rparr>"
    unfolding l by simp
  from confidence_formula [of "[]"] e have 2: "calculateConfidenceScores [] = empty_object" by blast
  from n l 1 e 2 show ?thesis by blast
qed

text \<open>
  C5 as stated fails at a provider count of 0: there \<^verbatim>\<open>overall\<close> is not a number, so it
  is not in the interval from 0 to 1 and is not below the value \<open>1 / 4\<close> for one provider.
\<close>

theorem confidence_monotone_counterexample:
  "conf_overall (calculateConfidenceScores []) = None \<and>
   conf_overall (calculateConfidenceScores [(''ipapi'', placeholder)]) = Some (1 / 4)"
proof -
  have "object_keys [(''ipapi'', placeholder)] \<noteq> []"
    "length (object_keys [(''ipapi'', placeholder)]) = 1"
    using object_keys_length [of "[(''ipapi'', placeholder)]"] by auto
  with confidence_some [of "[(''ipapi'', placeholder)]"] show ?thesis
    by (simp add: confidence_nothing empty_object_def)
qed

text \<open>
  C5, amended. From one provider record on, \<^verbatim>\<open>overall\<close> is a number between
  \<open>1 / 4\<close> and 1, and it does not decrease when the number of records grows.
\<close>

theorem confidence_monotone:
  "(1 \<le> length (object_keys p1) \<and> length (object_keys p1) < length (object_keys p2) \<longrightarrow>
      (\<exists>x y. conf_overall (calculateConfidenceScores p1) = Some x \<and>
         conf_overall (calculateConfidenceScores p2) = Some y \<and> x \<le> y)) \<and>
   (1 \<le> length (object_keys p1) \<longrightarrow>
      (\<exists>x. conf_overall (calculateConfidenceScores p1) = Some x \<and> 1 / 4 \<le> x \<and> x \<le> 1))"
proof (intro conjI impI)
  assume a: "1 \<le> length (object_keys p1) \<and> length (object_keys p1) < length (object_keys p2)"
  then have n: "object_keys p1 \<noteq> []" "object_keys p2 \<noteq> []" by auto
  from a have "real (length (object_keys p1)) \<le> real (length (object_keys p2))" by simp
  then have "min 1 (0.25 * real (length (object_keys p1))) \<le> min 1 (0.25 * real (length (object_keys p2)))"
    by (simp add: min_def)
  with confidence_some [OF n(1)] confidence_some [OF n(2)]
  show "\<exists>x y. conf_overall (calculateConfidenceScores p1) = Some x \<and>
         conf_overall (calculateConfidenceScores p2) = Some y \<and> x \<le> y" by simp
next
  assume a: "1 \<le> length (object_keys p1)"
  then have n: "object_keys p1 \<noteq> []" by auto
  from a have "1 \<le> real (length (object_keys p1))" by simp
  then have "1 / 4 \<le> min 1 (0.25 * real (length (object_keys p1)))"
    "min 1 (0.25 * real (length (object_keys p1))) \<le> 1" by (simp_all add: min_def)
  with confidence_some [OF n]
  show "\<exists>x. conf_overall (calculateConfidenceScores p1) = Some x \<and> 1 / 4 \<le> x \<and> x \<le> 1" by simp
qed

theorem confidence_monotone_witness:
  "1 \<le> length (object_keys [(''ipapi'', placeholder)]) \<and>
   length (object_keys [(''ipapi'', placeholder)]) < length (object_keys equator_example) \<and>
   conf_overall (calculateConfidenceScores [(''ipapi'', placeholder)]) = Some (1 / 4) \<and>
   conf_overall (calculateConfidenceScores equator_example) = Some (1 / 2) \<and>
   (1 / 4 :: real) \<le> 1 / 2"
proof -
  let ?p = "[(''ipapi'', placeholder)]"
  have l: "length (object_keys ?p) = 1" "length (object_keys equator_example) = 2"
    by (simp_all add: object_keys_length equator_example_def)
  then have n: "object_keys ?p \<noteq> []" "object_keys equator_example \<noteq> []" by auto
  have h: "1 \<le> length (object_keys ?p)" "length (object_keys ?p) < length (object_keys equator_example)"
    using l by simp_all
  from confidence_some [OF n(1)] confidence_some [OF n(2)]
  have v: "conf_overall (calculateConfidenceScores ?p) = Some (1 / 4)"
    "conf_overall (calculateConfidenceScores equator_example) = Some (1 / 2)"
    unfolding l by simp_all
  from confidence_monotone [of ?p equator_example] h v
  have "(1 / 4 :: real) \<le> 1 / 2" by auto
  with h v show ?thesis by blast
qed








subsection \<open>The most common value\<close>

lemma obj_set_keys:
  "map fst (obj_set kvs k v) = (if k \<in> fst ` set kvs then map fst kvs else map fst kvs @ [k])"
  by (induction kvs) force+

lemma obj_set_get: "obj_get (obj_set kvs k v) k' = (if k' = k then Some v else obj_get kvs k')"
  by (induction kvs) (auto simp add: obj_get_def)

lemma first_seen_snoc:
  "first_seen (xs @ [x]) = (if x \<in> set xs then first_seen xs else first_seen xs @ [x])"
  by (simp add: first_seen_def)

lemma first_seen_set: "set (first_seen xs) = set xs"
  by (simp add: first_seen_def)

lemma counts_of_array:
  "map fst (foldl count_item [] array) = first_seen array \<and>
   (\<forall>v. count_of (foldl count_item [] array) v = count_list array v)"
proof (induction array rule: rev_induct)
  case Nil
  show ?case by (simp add: first_seen_def count_of_def obj_get_def)
next
  case (snoc x xs)
  let ?c = "foldl count_item [] xs"
  from snoc have k: "map fst ?c = first_seen xs" and c: "\<And>v. count_of ?c v = count_list xs v"
    by simp_all
  have "fst ` set ?c = set xs" using k first_seen_set [of xs] by (metis set_map)
  then have "map fst (count_item ?c x) = first_seen (xs @ [x])"
    by (simp add: count_item_def obj_set_keys first_seen_snoc k)
  moreover have "\<And>v. count_of (count_item ?c x) v = count_list (xs @ [x]) v"
    using c by (simp add: count_item_def count_of_def obj_set_get)
  ultimately show ?case by simp
qed

lemma insort_key_fst:
  "map fst (insort_key (\<lambda>kv. f (fst kv)) x xs) = insort_key f (fst x) (map fst xs)"
  by (induction xs) simp_all

lemma sort_key_fst: "map fst (sort_key (\<lambda>kv. f (fst kv)) xs) = sort_key f (map fst xs)"
  by (induction xs) (simp_all add: insort_key_fst)

lemma object_keys_order:
  "object_keys obj =
     sort_key str_to_int (filter is_array_index (map fst obj)) @
     filter (\<lambda>k. \<not> is_array_index k) (map fst obj)"
  by (simp add: object_keys_def object_entries_def sort_key_fst filter_map comp_def)

lemma counts_keys: "object_keys (foldl count_item [] array) = key_order array"
  by (simp add: object_keys_order key_order_def counts_of_array)

lemma key_order_set: "set (key_order array) = set array"
  by (auto simp add: key_order_def first_seen_set)

lemma reduce_last_highest:
  "foldl (\<lambda>a b. if c a > c b then a else b) k ks =
     last (filter (\<lambda>x. c x = Max (c ` set (k # ks))) (k # ks)) \<and>
   c (foldl (\<lambda>a b. if c a > c b then a else b) k ks) = Max (c ` set (k # ks))"
  for c :: "'a \<Rightarrow> nat"
proof (induction ks rule: rev_induct)
  case Nil
  show ?case by simp
next
  case (snoc b ks)
  let ?r = "foldl (\<lambda>a b. if c a > c b then a else b) k ks"
  let ?M = "Max (c ` set (k # ks))"
  have r: "?r = last (filter (\<lambda>x. c x = ?M) (k # ks))" by (rule snoc [THEN conjunct1])
  have m: "c ?r = ?M" by (rule snoc [THEN conjunct2])
  have M': "Max (c ` set (k # ks @ [b])) = max (c b) ?M"
  proof -
    have "c ` set (k # ks @ [b]) = insert (c b) (c ` set (k # ks))" by auto
    then show ?thesis by simp
  qed
  show ?case
  proof (cases "c ?r > c b")
    case True
    with m have mx: "max (c b) ?M = ?M" and "c b \<noteq> ?M" by simp_all
    then have f: "filter (\<lambda>x. c x = Max (c ` set (k # ks @ [b]))) (k # ks @ [b]) =
        filter (\<lambda>x. c x = ?M) (k # ks)"
      unfolding M' by simp
    from True have e: "foldl (\<lambda>a b. if c a > c b then a else b) k (ks @ [b]) = ?r" by simp
    show ?thesis
    proof (intro conjI)
      show "foldl (\<lambda>a b. if c a > c b then a else b) k (ks @ [b]) =
          last (filter (\<lambda>x. c x = Max (c ` set (k # ks @ [b]))) (k # ks @ [b]))"
        unfolding e f by (rule r)
      show "c (foldl (\<lambda>a b. if c a > c b then a else b) k (ks @ [b])) = Max (c ` set (k # ks @ [b]))"
        unfolding e M' mx by (rule m)
    qed
  next
    case False
    with m have mx: "max (c b) ?M = c b" by simp
    have f: "filter (\<lambda>x. c x = Max (c ` set (k # ks @ [b]))) (k # ks @ [b]) =
        filter (\<lambda>x. c x = c b) (k # ks) @ [b]"
      unfolding M' mx by simp
    from False have e: "foldl (\<lambda>a b. if c a > c b then a else b) k (ks @ [b]) = b" by simp
    show ?thesis
    proof (intro conjI)
      show "foldl (\<lambda>a b. if c a > c b then a else b) k (ks @ [b]) =
          last (filter (\<lambda>x. c x = Max (c ` set (k # ks @ [b]))) (k # ks @ [b]))"
        unfolding e f by simp
      show "c (foldl (\<lambda>a b. if c a > c b then a else b) k (ks @ [b])) = Max (c ` set (k # ks @ [b]))"
        unfolding e M' mx by (rule refl)
    qed
  qed
qed

lemma getMostCommon_last:
  assumes "array \<noteq> []"
  shows "getMostCommon array =
     Some (last (filter (\<lambda>k. count_list array k = highest_count array) (key_order array)))"
proof -
  let ?counts = "foldl count_item [] array"
  from assms key_order_set [of array] obtain k ks where ks: "key_order array = k # ks"
    by (cases "key_order array") auto
  have c: "count_of ?counts = count_list array" using counts_of_array [of array] by auto
  have "count_list array ` set (k # ks) = count_list array ` set array"
    using key_order_set [of array] ks by simp
  then have h: "Max (count_list array ` set (k # ks)) = highest_count array"
    by (simp add: highest_count_def)
  from reduce_last_highest [of "count_list array" k ks]
  have "foldl (\<lambda>a b. if count_list array a > count_list array b then a else b) k ks =
      last (filter (\<lambda>x. count_list array x = highest_count array) (k # ks))"
    unfolding h by blast
  with assms ks show ?thesis
    by (simp add: getMostCommon_def Let_def counts_keys c)
qed

lemma key_order_plain:
  "\<forall>v\<in>set array. \<not> is_array_index v \<Longrightarrow> key_order array = first_seen array"
proof -
  assume "\<forall>v\<in>set array. \<not> is_array_index v"
  then have "\<forall>v\<in>set (first_seen array). \<not> is_array_index v" by (simp add: first_seen_set)
  then have "filter is_array_index (first_seen array) = []"
    "filter (\<lambda>k. \<not> is_array_index k) (first_seen array) = first_seen array"
    by (simp_all add: filter_empty_conv filter_id_conv)
  then show ?thesis by (simp add: key_order_def)
qed

lemma push_strings_truthy: "push_strings field ps = [s. Some s \<leftarrow> map field ps, s \<noteq> []]"
  by (induction ps) (auto simp add: push_strings_def List.map_filter_simps split: option.splits)

lemma aggregated_strings:
  "loc_country (location (aggregateProviderData providers)) =
     getMostCommon (push_strings country (object_values providers))"
  "loc_region (location (aggregateProviderData providers)) =
     getMostCommon (push_strings region (object_values providers))"
  "loc_city (location (aggregateProviderData providers)) =
     getMostCommon (push_strings city (object_values providers))"
  "loc_timezone (location (aggregateProviderData providers)) =
     getMostCommon (push_strings timezone (object_values providers))"
  "net_isp (network (aggregateProviderData providers)) =
     getMostCommon (push_strings isp (object_values providers))"
  "net_org (network (aggregateProviderData providers)) =
     getMostCommon (push_strings org (object_values providers))"
  "net_asn (network (aggregateProviderData providers)) =
     getMostCommon (push_strings asn (object_values providers))"
  by (simp_all add: aggregateProviderData_def Let_def)

lemma tie_cities: "push_strings city (object_values tie_example) = [''A'', ''B'']"
proof -
  have "object_entries tie_example = tie_example"
    by (rule object_entries_plain) (simp add: tie_example_def names_plain)
  then show ?thesis
    by (simp add: object_values_def push_strings_truthy) (simp add: tie_example_def)
qed

lemma majority_cities:
  "push_strings city (object_values majority_example) = [''Paris'', ''Paris'', ''Berlin'']"
proof -
  have "object_entries majority_example = majority_example"
    by (rule object_entries_plain) (simp add: majority_example_def names_plain)
  then show ?thesis
    by (simp add: object_values_def push_strings_truthy) (simp add: majority_example_def)
qed

lemma most_common_examples:
  "getMostCommon [''A'', ''B''] = Some ''B''"
  "getMostCommon [''Paris'', ''Paris'', ''Berlin''] = Some ''Paris''"
  by code_simp+

text \<open>
  C3 as stated fails on a tie: two providers reporting the cities \<^verbatim>\<open>A\<close> and \<^verbatim>\<open>B\<close>, in
  this order, aggregate to \<^verbatim>\<open>B\<close>, the value seen last.
\<close>

theorem first_seen_tie_counterexample:
  "map city (object_values tie_example) = [Some ''A'', Some ''B''] \<and>
   loc_city (location (aggregateProviderData tie_example)) = Some ''B'' \<and>
   loc_city (location (aggregateProviderData tie_example)) \<noteq> Some ''A''"
proof -
  have "object_entries tie_example = tie_example"
    by (rule object_entries_plain) (simp add: tie_example_def names_plain)
  then have "map city (object_values tie_example) = [Some ''A'', Some ''B'']"
    by (simp add: object_values_def) (simp add: tie_example_def)
  then show ?thesis
    by (simp add: aggregated_strings tie_cities most_common_examples)
qed

text \<open>
  C3, amended. For items that do not name a member of \<^verbatim>\<open>Object.prototype\<close>,
  \<^verbatim>\<open>getMostCommon\<close> of a non-empty array is the last of the items with the highest
  number of occurrences in the order of \<^verbatim>\<open>Object.keys\<close>: items that are array indices
  first, in ascending numeric order, then the other items in the order of their first
  occurrence. When no item is an array index this is the order of first occurrence, so
  a tie goes to the value that was first seen last. Of the empty array it is
  \<^verbatim>\<open>null\<close>. Each of the seven categorical fields is \<^verbatim>\<open>getMostCommon\<close> of the truthy
  (present and non-empty) values of the provider records, in the order of
  \<^verbatim>\<open>Object.values\<close>.
\<close>

theorem most_common_value:
  "(array \<noteq> [] \<and> (\<forall>v\<in>set array. \<not> inherited_key v) \<longrightarrow>
      getMostCommon array =
        Some (last (filter (\<lambda>k. count_list array k = highest_count array) (key_order array)))) \<and>
   ((\<forall>v\<in>set array. \<not> is_array_index v) \<longrightarrow> key_order array = first_seen array) \<and>
   getMostCommon [] = None \<and>
   loc_country (location (aggregateProviderData providers)) =
     getMostCommon [s. Some s \<leftarrow> map country (object_values providers), s \<noteq> []] \<and>
   loc_region (location (aggregateProviderData providers)) =
     getMostCommon [s. Some s \<leftarrow> map region (object_values providers), s \<noteq> []] \<and>
   loc_city (location (aggregateProviderData providers)) =
     getMostCommon [s. Some s \<leftarrow> map city (object_values providers), s \<noteq> []] \<and>
   loc_timezone (location (aggregateProviderData providers)) =
     getMostCommon [s. Some s \<leftarrow> map timezone (object_values providers), s \<noteq> []] \<and>
   net_isp (network (aggregateProviderData providers)) =
     getMostCommon [s. Some s \<leftarrow> map isp (object_values providers), s \<noteq> []] \<and>
   net_org (network (aggregateProviderData providers)) =
     getMostCommon [s. Some s \<leftarrow> map org (object_values providers), s \<noteq> []] \<and>
   net_asn (network (aggregateProviderData providers)) =
     getMostCommon [s. Some s \<leftarrow> map asn (object_values providers), s \<noteq> []]"
proof -
  have 1: "array \<noteq> [] \<and> (\<forall>v\<in>set array. \<not> inherited_key v) \<longrightarrow>
      getMostCommon array =
        Some (last (filter (\<lambda>k. count_list array k = highest_count array) (key_order array)))"
    using getMostCommon_last [of array] by blast
  have 2: "(\<forall>v\<in>set array. \<not> is_array_index v) \<longrightarrow> key_order array = first_seen array"
    using key_order_plain [of array] by blast
  have 3: "getMostCommon [] = None" by (simp add: getMostCommon_def)
  from 1 2 3 show ?thesis
    by (simp only: aggregated_strings push_strings_truthy simp_thms)
qed

theorem most_common_value_witness:
  "[''A'', ''B''] \<noteq> [] \<and>
   list_all (\<lambda>v. \<not> inherited_key v) [''A'', ''B''] \<and>
   list_all (\<lambda>v. \<not> is_array_index v) [''A'', ''B''] \<and>
   key_order [''A'', ''B''] = [''A'', ''B''] \<and>
   highest_count [''A'', ''B''] = 1 \<and>
   getMostCommon [''A'', ''B''] = Some ''B'' \<and>
   [s. Some s \<leftarrow> map city (object_values tie_example), s \<noteq> []] = [''A'', ''B''] \<and>
   loc_city (location (aggregateProviderData tie_example)) = Some ''B'' \<and>
   list_all (\<lambda>v. \<not> inherited_key v) [''Paris'', ''Paris'', ''Berlin''] \<and>
   list_all (\<lambda>v. \<not> is_array_index v) [''Paris'', ''Paris'', ''Berlin''] \<and>
   key_order [''Paris'', ''Paris'', ''Berlin''] = [''Paris'', ''Berlin''] \<and>
   highest_count [''Paris'', ''Paris'', ''Berlin''] = 2 \<and>
   getMostCommon [''Paris'', ''Paris'', ''Berlin''] = Some ''Paris'' \<and>
   loc_city (location (aggregateProviderData majority_example)) = Some ''Paris''"
proof -
  let ?ab = "[''A'', ''B'']"
  let ?pb = "[''Paris'', ''Paris'', ''Berlin'']"
  have i: "list_all (\<lambda>v. \<not> inherited_key v) ?ab" "list_all (\<lambda>v. \<not> inherited_key v) ?pb"
    by (simp_all add: inherited_key_def)
  have x: "list_all (\<lambda>v. \<not> is_array_index v) ?ab" "list_all (\<lambda>v. \<not> is_array_index v) ?pb"
    by code_simp+
  have f: "first_seen ?ab = ?ab" "first_seen ?pb = [''Paris'', ''Berlin'']"
    by (simp_all add: first_seen_def)
  have h: "highest_count ?ab = 1" "highest_count ?pb = 2"
    by (simp_all add: highest_count_def)
  have c: "[s. Some s \<leftarrow> map city (object_values tie_example), s \<noteq> []] = ?ab"
    "[s. Some s \<leftarrow> map city (object_values majority_example), s \<noteq> []] = ?pb"
    using tie_cities majority_cities by (simp_all add: push_strings_truthy)
  note ab = most_common_value [of ?ab tie_example]
  note pb = most_common_value [of ?pb majority_example]
  from ab x(1) f(1) have k1: "key_order ?ab = ?ab" by (simp add: list_all_iff)
  from pb x(2) f(2) have k2: "key_order ?pb = [''Paris'', ''Berlin'']" by (simp add: list_all_iff)
  from ab i(1) have "getMostCommon ?ab =
      Some (last (filter (\<lambda>k. count_list ?ab k = highest_count ?ab) (key_order ?ab)))"
    by (simp add: list_all_iff)
  then have g1: "getMostCommon ?ab = Some ''B''" unfolding k1 h by simp
  from pb i(2) have "getMostCommon ?pb =
      Some (last (filter (\<lambda>k. count_list ?pb k = highest_count ?pb) (key_order ?pb)))"
    by (simp add: list_all_iff)
  then have g2: "getMostCommon ?pb = Some ''Paris''" unfolding k2 h by simp
  from ab have "loc_city (location (aggregateProviderData tie_example)) =
      getMostCommon [s. Some s \<leftarrow> map city (object_values tie_example), s \<noteq> []]" by blast
  then have a1: "loc_city (location (aggregateProviderData tie_example)) = Some ''B''"
    unfolding c g1 .
  from pb have "loc_city (location (aggregateProviderData majority_example)) =
      getMostCommon [s. Some s \<leftarrow> map city (object_values majority_example), s \<noteq> []]" by blast
  then have a2: "loc_city (location (aggregateProviderData majority_example)) = Some ''Paris''"
    unfolding c g2 .
  have n: "?ab \<noteq> []" by simp
  from n i x k1 k2 h g1 g2 c(1) a1 a2 show ?thesis by blast
qed

end
